theory Spec2Isabelle
  imports Complex_Main "HOL-Library.Log_Nat"
begin

section \<open>Batch generation entry point of \<open>metaseq/cli/interactive_cli.py\<close>\<close>

text \<open>
  The development embeds \<open>make_caninical_smiles\<close> and \<open>worker_main\<close>. Everything the
  two functions call but do not define (the generation service, the SELFIES decoder, the
  RDKit canonicaliser, the process pool of \<open>parmap\<close>, the broadcast channel) is a
  parameter of the model, collected in the record \<open>world\<close>; each of them may raise.
  A process is run on an explicit state: the file system and the ordered trace of the
  effects it performed.
\<close>

subsection \<open>Errors, configuration, requests\<close>

datatype error =
    ZeroDivisionError
  | OverflowError
  | TypeError
  | IndexError
  | DecoderError
  | ChemError
  | GenerationError
  | PoolError

text \<open>The fields of \<open>cfg\<close> that \<open>worker_main\<close> reads, named section by section:
  \<open>cfg.dataset.batch_size\<close>, \<open>cfg.common.seed\<close>, \<open>cfg.generation.*\<close>.
  Python floats that are only passed through are kept as rationals.\<close>

record cfg =
  dataset_batch_size :: int
  common_seed :: int
  generation_output_file_path :: string
  generation_temperature :: rat
  generation_sampling_topp :: rat
  generation_logprobs :: int
  generation_beam :: int
  generation_generation_len :: int
  generation_mol_repr :: string

text \<open>The dictionary \<open>request_object\<close>, one field per key. \<open>None\<close> values of the
  source are \<open>None\<close> of an option type.\<close>

record request =
  inputs :: "int list list"
  max_tokens :: "int option"
  min_tokens :: "int list"
  temperature :: rat
  top_p :: rat
  logprobs :: int
  n :: int
  best_of :: "int option"
  echo :: bool
  stop :: "int option"
  seed :: int
  use_cuda :: bool

text \<open>One candidate of the generation service: a dictionary of which the code reads the
  key \<open>text\<close> (the field \<open>cand_text\<close>). The service answers a request with one list of candidates per prompt.\<close>

record candidate =
  cand_text :: string

record world =
  generator_generate :: "nat \<Rightarrow> request \<Rightarrow> error + candidate list list"
  sf_decoder :: "string \<Rightarrow> error + string"
  Chem_canonical :: "string \<Rightarrow> error + string"
  parmap_fails :: "nat \<Rightarrow> bool"

text \<open>
  \<^item> \<open>generator_generate w i req\<close>: what \<open>generator.generate(**req)\<close> returns at its
    \<open>i\<close>-th call in this process (the service is stateful and random), or the exception
    it raises;
  \<^item> \<open>sf_decoder\<close>: \<open>sf.decoder\<close>;
  \<^item> \<open>Chem_canonical s\<close>: \<open>Chem.MolToSmiles(Chem.MolFromSmiles(s))\<close>;
  \<^item> \<open>parmap_fails i\<close>: the pool of \<open>parmap.map\<close> itself breaks in round \<open>i\<close>.
\<close>

subsection \<open>Process state and effects\<close>

datatype event =
    LoadModel
  | Publish "request option"
  | Receive "request option"
  | PathExists string
  | OpenFile string
  | Print string
  | PrintRequest request
  | Generate request
  | FileWrite string

datatype outcome = Exit int | Raised error | Blocked

record pstate =
  fs :: "string \<Rightarrow> string option"
  trace :: "event list"

definition emit :: "event \<Rightarrow> pstate \<Rightarrow> pstate" where
  "emit ev s = s\<lparr>trace := trace s @ [ev]\<rparr>"

text \<open>\<open>open(file_path, "wt+")\<close> creates the file or truncates it.\<close>

definition open_wt :: "string \<Rightarrow> pstate \<Rightarrow> pstate" where
  "open_wt path s = emit (OpenFile path) (s\<lparr>fs := (fs s)(path \<mapsto> [])\<rparr>)"

text \<open>\<open>write_func = functools.partial(csv_file.write)\<close>: appends to the opened file.\<close>

definition write_func :: "string \<Rightarrow> string \<Rightarrow> pstate \<Rightarrow> pstate" where
  "write_func path txt s =
     emit (FileWrite txt)
       (s\<lparr>fs := (fs s)(path \<mapsto> (case fs s path of None \<Rightarrow> txt | Some old \<Rightarrow> old @ txt))\<rparr>)"

subsection \<open>Strings\<close>

definition nl :: char where
  "nl = CHR 0x0A"

text \<open>\<open>sep.join(xs)\<close> on a list of strings.\<close>

fun join :: "string \<Rightarrow> string list \<Rightarrow> string" where
  "join sep [] = []"
| "join sep [x] = x"
| "join sep (x # y # ys) = x @ sep @ join sep (y # ys)"

text \<open>\<open>sep.join(xs)\<close> on a list that may hold \<open>None\<close>: Python raises \<open>TypeError\<close> at
  the first item that is not a string.\<close>

definition join_opt :: "string \<Rightarrow> string option list \<Rightarrow> error + string" where
  "join_opt sep xs = (if None \<in> set xs then Inl TypeError else Inr (join sep (map the xs)))"

text \<open>The lines of a text file in which every line ends with a newline.\<close>

definition count_lines :: "string \<Rightarrow> nat" where
  "count_lines s = length (filter (\<lambda>ch. ch = nl) s)"

fun split_lines_acc :: "string \<Rightarrow> string \<Rightarrow> string list" where
  "split_lines_acc cur [] = (if cur = [] then [] else [cur])"
| "split_lines_acc cur (ch # cs) =
     (if ch = nl then cur # split_lines_acc [] cs else split_lines_acc (cur @ [ch]) cs)"

definition split_lines :: "string \<Rightarrow> string list" where
  "split_lines s = split_lines_acc [] s"

subsection \<open>\<open>math.ceil(generation_len / batch_size)\<close>\<close>

text \<open>
  \<open>/\<close> on two Python integers is true division: the result is the IEEE double nearest to
  the exact quotient (ties to even), \<open>ZeroDivisionError\<close> for a zero divisor and
  \<open>OverflowError\<close> when the quotient is beyond the doubles. A double is kept as
  \<open>Dbl m s\<close>, the number \<open>m * 2 ^ s\<close>.
\<close>

datatype pydouble = Dbl int int

definition round_half_even :: "int \<Rightarrow> int \<Rightarrow> int" where
  "round_half_even a d =
     (let q = a div d; r = a mod d in
      if 2 * r < d then q
      else if d < 2 * r then q + 1
      else if even q then q else q + 1)"

text \<open>For positive \<open>a\<close> and \<open>d\<close>: the \<open>e\<close> with \<open>2 ^ e \<le> a / d < 2 ^ (e + 1)\<close>.\<close>

definition floor_log2_quot :: "int \<Rightarrow> int \<Rightarrow> int" where
  "floor_log2_quot a d =
     (let e0 = bitlen a - bitlen d in
      if (if 0 \<le> e0 then d * 2 ^ nat e0 \<le> a else d \<le> a * 2 ^ nat (- e0)) then e0 else e0 - 1)"

definition int_truediv :: "int \<Rightarrow> int \<Rightarrow> error + pydouble" where
  "int_truediv a b =
     (if b = 0 then Inl ZeroDivisionError
      else if a = 0 then Inr (Dbl 0 0)
      else
        let e = floor_log2_quot \<bar>a\<bar> \<bar>b\<bar>;
            s = max (e - 52) (- 1074);
            m = (if 0 \<le> s then round_half_even \<bar>a\<bar> (\<bar>b\<bar> * 2 ^ nat s)
                 else round_half_even (\<bar>a\<bar> * 2 ^ nat (- s)) \<bar>b\<bar>)
        in if 0 \<le> s \<and> 2 ^ 1024 \<le> m * 2 ^ nat s then Inl OverflowError
           else Inr (Dbl (sgn a * sgn b * m) s))"

definition math_ceil :: "pydouble \<Rightarrow> int" where
  "math_ceil x =
     (case x of Dbl m s \<Rightarrow> if 0 \<le> s then m * 2 ^ nat s else - ((- m) div 2 ^ nat (- s)))"

definition round_count :: "int \<Rightarrow> int \<Rightarrow> error + int" where
  "round_count generation_len batch_size =
     (case int_truediv generation_len batch_size of
        Inl e \<Rightarrow> Inl e
      | Inr x \<Rightarrow> Inr (math_ceil x))"

subsection \<open>\<open>make_caninical_smiles\<close>\<close>

text \<open>\<open>sf.decoder\<close> is called outside the \<open>try\<close>: its exception leaves the function.
  The canonicalisation is inside it: its exception leaves \<open>canon_smiles\<close> at \<open>None\<close>.\<close>

definition make_caninical_smiles :: "world \<Rightarrow> string \<Rightarrow> error + string option" where
  "make_caninical_smiles w selfies =
     (case sf_decoder w selfies of
        Inl e \<Rightarrow> Inl e
      | Inr smiles \<Rightarrow>
          Inr (case Chem_canonical w smiles of Inl _ \<Rightarrow> None | Inr canon_smiles \<Rightarrow> Some canon_smiles))"

subsection \<open>\<open>worker_main\<close>\<close>

text \<open>\<open>parmap.map(f, xs, pm_processes=6)\<close>: the results in the order of \<open>xs\<close>; an
  exception of the pool or of any call of \<open>f\<close> is raised in the caller.\<close>

fun map_raise :: "('a \<Rightarrow> error + 'b) \<Rightarrow> 'a list \<Rightarrow> error + 'b list" where
  "map_raise f [] = Inr []"
| "map_raise f (x # xs) =
     (case f x of
        Inl e \<Rightarrow> Inl e
      | Inr y \<Rightarrow> (case map_raise f xs of Inl e \<Rightarrow> Inl e | Inr ys \<Rightarrow> Inr (y # ys)))"

definition parmap_map :: "bool \<Rightarrow> ('a \<Rightarrow> error + 'b) \<Rightarrow> 'a list \<Rightarrow> error + 'b list" where
  "parmap_map broken f xs = (if broken then Inl PoolError else map_raise f xs)"

text \<open>\<open>list(map(lambda x: x[0]["text"], generations))\<close>: \<open>x[0]\<close> raises \<open>IndexError\<close>
  on a prompt without candidates.\<close>

definition first_text :: "candidate list \<Rightarrow> error + string" where
  "first_text x = (case x of [] \<Rightarrow> Inl IndexError | c # _ \<Rightarrow> Inr (cand_text c))"

definition smiles_batch_of :: "candidate list list \<Rightarrow> error + string list" where
  "smiles_batch_of generations = map_raise first_text generations"

definition request_object :: "cfg \<Rightarrow> request" where
  "request_object c =
     \<lparr> inputs = replicate (nat (dataset_batch_size c)) [],
       max_tokens = None,
       min_tokens = replicate (nat (dataset_batch_size c)) 1,
       temperature = generation_temperature c,
       top_p = generation_sampling_topp c,
       logprobs = generation_logprobs c,
       n = generation_beam c,
       best_of = None,
       echo = False,
       stop = None,
       seed = common_seed c,
       use_cuda = True \<rparr>"

text \<open>The body of the \<open>try\<close> up to the text handed to \<open>write_func\<close>.\<close>

definition canon_block :: "world \<Rightarrow> nat \<Rightarrow> string list \<Rightarrow> error + string" where
  "canon_block w i smiles_batch =
     (case parmap_map (parmap_fails w i) (make_caninical_smiles w) smiles_batch of
        Inl e \<Rightarrow> Inl e
      | Inr canon_smiles_batch \<Rightarrow>
          (case join_opt [nl] canon_smiles_batch of
             Inl e \<Rightarrow> Inl e
           | Inr joined \<Rightarrow> Inr (joined @ [nl])))"

text \<open>One iteration of the \<open>for\<close> loop. The result is the exception that leaves the
  iteration, if any, and the state. The bare \<open>except: pass\<close> ends the iteration with the
  state as it was after the call of the service.\<close>

definition round_body :: "world \<Rightarrow> cfg \<Rightarrow> request \<Rightarrow> nat \<Rightarrow> pstate \<Rightarrow> error option \<times> pstate" where
  "round_body w c req i s =
     (let s1 = emit (Generate req) s in
      case generator_generate w i req of
        Inl e \<Rightarrow> (Some e, s1)
      | Inr generations \<Rightarrow>
          (case smiles_batch_of generations of
             Inl e \<Rightarrow> (Some e, s1)
           | Inr smiles_batch \<Rightarrow>
               if generation_mol_repr c = ''smiles''
               then (None, write_func (generation_output_file_path c) (join [nl] smiles_batch @ [nl]) s1)
               else (case canon_block w i smiles_batch of
                       Inl _ \<Rightarrow> (None, s1)
                     | Inr block \<Rightarrow> (None, write_func (generation_output_file_path c) block s1))))"

fun rounds_loop :: "world \<Rightarrow> cfg \<Rightarrow> request \<Rightarrow> nat list \<Rightarrow> pstate \<Rightarrow> error option \<times> pstate" where
  "rounds_loop w c req [] s = (None, s)"
| "rounds_loop w c req (i # rest) s =
     (case round_body w c req i s of
        (Some e, s') \<Rightarrow> (Some e, s')
      | (None, s') \<Rightarrow> rounds_loop w c req rest s')"

text \<open>The branch of rank 0 (or of a run without process group), from the reading of the
  configuration to \<open>print(f"Saved in {file_path}.")\<close>.\<close>

definition coordinating :: "world \<Rightarrow> cfg \<Rightarrow> pstate \<Rightarrow> outcome \<times> pstate" where
  "coordinating w c s =
     (let batch_size = dataset_batch_size c;
          file_path = generation_output_file_path c;
          s1 = emit (PathExists file_path) s
      in if fs s file_path \<noteq> None
         then (Exit 1, emit (Print (file_path @ '' already exists'')) s1)
         else
           let s2 = open_wt file_path s1;
               s3 = emit (PrintRequest (request_object c)) s2
           in case round_count (generation_generation_len c) batch_size of
                Inl e \<Rightarrow> (Raised e, s3)
              | Inr k \<Rightarrow>
                  (case rounds_loop w c (request_object c) [0..<nat k] s3 of
                     (Some e, s4) \<Rightarrow> (Raised e, s4)
                   | (None, s4) \<Rightarrow> (Exit 0, emit (Print (''Saved in '' @ file_path @ ''.'')) s4)))"

text \<open>The \<open>while True\<close> loop of the other ranks, run on the values the broadcast channel
  delivers to this process. When no further value is delivered the process stays blocked
  in \<open>broadcast_object\<close>. \<open>generator.generate(**None)\<close> raises \<open>TypeError\<close>.\<close>

fun waiting :: "world \<Rightarrow> nat \<Rightarrow> request option list \<Rightarrow> pstate \<Rightarrow> outcome \<times> pstate" where
  "waiting w i [] s = (Blocked, s)"
| "waiting w i (v # rest) s =
     (let s1 = emit (Receive v) s in
      case v of
        None \<Rightarrow> (Raised TypeError, s1)
      | Some req \<Rightarrow>
          (case generator_generate w i req of
             Inl e \<Rightarrow> (Raised e, emit (Generate req) s1)
           | Inr _ \<Rightarrow> waiting w (Suc i) rest (emit (Generate req) s1)))"

text \<open>\<open>rank\<close> is \<open>None\<close> when \<open>torch.distributed\<close> is not initialised, the rank of the
  process otherwise; \<open>delivered\<close> are the values the channel delivers to a process that is
  not rank 0; \<open>files\<close> is the file system the process starts on. Rank 0 is the source of
  every broadcast: its first call publishes \<open>None\<close>.\<close>

definition worker_main ::
  "world \<Rightarrow> cfg \<Rightarrow> nat option \<Rightarrow> request option list \<Rightarrow> (string \<Rightarrow> string option) \<Rightarrow> outcome \<times> pstate" where
  "worker_main w c rank delivered files =
     (let s1 = emit LoadModel \<lparr>fs = files, trace = []\<rparr> in
      case rank of
        None \<Rightarrow> coordinating w c s1
      | Some r \<Rightarrow>
          if r = 0 then coordinating w c (emit (Publish None) s1)
          else (case delivered of
                  [] \<Rightarrow> (Blocked, s1)
                | v # rest \<Rightarrow> waiting w 0 rest (emit (Receive v) s1)))"

subsection \<open>Concrete runs\<close>

definition demo_cfg :: "string \<Rightarrow> int \<Rightarrow> int \<Rightarrow> cfg" where
  "demo_cfg repr len bsz =
     \<lparr> dataset_batch_size = bsz, common_seed = 3, generation_output_file_path = ''out.csv'',
       generation_temperature = 1, generation_sampling_topp = 4 / 5, generation_logprobs = 0,
       generation_beam = 1, generation_generation_len = len, generation_mol_repr = repr \<rparr>"

definition one :: "string \<Rightarrow> candidate list" where
  "one t = [\<lparr>cand_text = t\<rparr>]"

text \<open>A decoder that rejects strings without an opening bracket and a canonicaliser that
  rejects the string \<open>garbage\<close>; both return their argument otherwise.\<close>

definition demo_decoder :: "string \<Rightarrow> error + string" where
  "demo_decoder s = (if CHR ''['' \<in> set s then Inr s else Inl DecoderError)"

definition demo_canonical :: "string \<Rightarrow> error + string" where
  "demo_canonical s = (if s = ''[garbage]'' then Inl ChemError else Inr s)"

definition demo_world :: "(nat \<Rightarrow> request \<Rightarrow> error + candidate list list) \<Rightarrow> (nat \<Rightarrow> bool) \<Rightarrow> world" where
  "demo_world gen broken =
     \<lparr> generator_generate = gen, sf_decoder = demo_decoder, Chem_canonical = demo_canonical,
       parmap_fails = broken \<rparr>"

definition abcd_world :: world where
  "abcd_world = demo_world (\<lambda>i req. Inr [one ''A'', one ''B'', one ''C'', one ''D'']) (\<lambda>i. False)"

definition pair_world :: "string \<Rightarrow> string \<Rightarrow> (nat \<Rightarrow> bool) \<Rightarrow> world" where
  "pair_world a b broken = demo_world (\<lambda>i req. Inr [one a, one b]) broken"

definition existing_files :: "string \<Rightarrow> string option" where
  "existing_files = Map.empty(''out.csv'' \<mapsto> ''old'' @ [nl])"

subsection \<open>Notions used to state the properties\<close>

text \<open>The ceiling of the exact quotient, the number of rounds the specification names.\<close>

definition exact_ceil :: "int \<Rightarrow> int \<Rightarrow> int" where
  "exact_ceil a b = \<lceil>rat_of_int a / rat_of_int b\<rceil>"

text \<open>The requests handed to the generation service by a process, in order.\<close>

definition generate_calls :: "event list \<Rightarrow> request list" where
  "generate_calls tr = concat (map (\<lambda>ev. case ev of Generate r \<Rightarrow> [r] | _ \<Rightarrow> []) tr)"

text \<open>The generation service answers round \<open>i\<close> and every prompt has a candidate.\<close>

definition served_round :: "world \<Rightarrow> cfg \<Rightarrow> nat \<Rightarrow> bool" where
  "served_round w c i =
     (case generator_generate w i (request_object c) of
        Inl _ \<Rightarrow> False
      | Inr generations \<Rightarrow>
          (case smiles_batch_of generations of Inl _ \<Rightarrow> False | Inr _ \<Rightarrow> True))"

text \<open>Round \<open>i\<close> goes through in full: the generation service answers with one list of
  candidates per prompt, each with a first candidate; in pass-through mode no text holds a
  newline; in validate mode the pool works and every text decodes and canonicalises to a
  string without newline.\<close>

definition clean_round :: "world \<Rightarrow> cfg \<Rightarrow> nat \<Rightarrow> bool" where
  "clean_round w c i =
     (case generator_generate w i (request_object c) of
        Inl _ \<Rightarrow> False
      | Inr generations \<Rightarrow>
          int (length generations) = dataset_batch_size c \<and>
          (case smiles_batch_of generations of
             Inl _ \<Rightarrow> False
           | Inr texts \<Rightarrow>
               if generation_mol_repr c = ''smiles''
               then list_all (\<lambda>t. nl \<notin> set t) texts
               else (case parmap_map (parmap_fails w i) (make_caninical_smiles w) texts of
                       Inl _ \<Rightarrow> False
                     | Inr canon \<Rightarrow>
                         list_all (\<lambda>r. case r of None \<Rightarrow> False | Some cs \<Rightarrow> nl \<notin> set cs) canon)))"

text \<open>What a process prints, in order: the only channel besides the output file and the
  exit code on which \<open>worker_main\<close> reports anything after the model is loaded.\<close>

definition printed :: "event list \<Rightarrow> event list" where
  "printed tr = filter (\<lambda>ev. case ev of Print _ \<Rightarrow> True | PrintRequest _ \<Rightarrow> True | _ \<Rightarrow> False) tr"

section \<open>Properties\<close>

subsection \<open>Effects of the steps\<close>

lemma fs_emit [simp]: "fs (emit ev s) = fs s"
  by (simp add: emit_def)

lemma trace_emit [simp]: "trace (emit ev s) = trace s @ [ev]"
  by (simp add: emit_def)

lemma trace_write_func [simp]: "trace (write_func p t s) = trace s @ [FileWrite t]"
  by (simp add: write_func_def)

lemma fs_write_func_other [simp]: "q \<noteq> p \<Longrightarrow> fs (write_func p t s) q = fs s q"
  by (simp add: write_func_def)

lemma fs_write_func_same [simp]: "fs s p = Some old \<Longrightarrow> fs (write_func p t s) p = Some (old @ t)"
  by (simp add: write_func_def)

lemma trace_open_wt [simp]: "trace (open_wt p s) = trace s @ [OpenFile p]"
  by (simp add: open_wt_def)

lemma fs_open_wt [simp]: "fs (open_wt p s) = (fs s)(p \<mapsto> [])"
  by (simp add: open_wt_def)

lemma round_body_cases:
  "round_body w c req i s = (Some e, s') \<Longrightarrow> s' = emit (Generate req) s"
  by (auto simp: round_body_def Let_def split: sum.splits if_splits)

lemma round_body_trace:
  "\<exists>evs. trace (snd (round_body w c req i s)) = trace s @ Generate req # evs \<and>
         (\<forall>ev\<in>set evs. \<exists>t. ev = FileWrite t)"
  by (auto simp: round_body_def Let_def split: sum.splits)

lemma rounds_loop_trace:
  "\<exists>evs. trace (snd (rounds_loop w c req rounds s)) = trace s @ evs \<and>
         (\<forall>ev\<in>set evs. ev = Generate req \<or> (\<exists>t. ev = FileWrite t))"
proof (induction rounds arbitrary: s)
  case Nil
  then show ?case by simp
next
  case (Cons i rest)
  obtain r s' where rb: "round_body w c req i s = (r, s')" by (cases "round_body w c req i s")
  from round_body_trace [of w c req i s] rb obtain evs where
    evs: "trace s' = trace s @ Generate req # evs" "\<forall>ev\<in>set evs. \<exists>t. ev = FileWrite t"
    by auto
  show ?case
  proof (cases r)
    case None
    from Cons.IH [of s'] obtain evs' where
      evs': "trace (snd (rounds_loop w c req rest s')) = trace s' @ evs'"
        "\<forall>ev\<in>set evs'. ev = Generate req \<or> (\<exists>t. ev = FileWrite t)"
      by auto
    have "trace (snd (rounds_loop w c req (i # rest) s)) = trace s @ (Generate req # evs @ evs')"
      using rb None evs(1) evs'(1) by simp
    moreover have "\<forall>ev\<in>set (Generate req # evs @ evs'). ev = Generate req \<or> (\<exists>t. ev = FileWrite t)"
      using evs(2) evs'(2) by auto
    ultimately show ?thesis by blast
  next
    case (Some e)
    have "trace (snd (rounds_loop w c req (i # rest) s)) = trace s @ (Generate req # evs)"
      using rb Some evs(1) by simp
    moreover have "\<forall>ev\<in>set (Generate req # evs). ev = Generate req \<or> (\<exists>t. ev = FileWrite t)"
      using evs(2) by auto
    ultimately show ?thesis by blast
  qed
qed

lemma coordinating_exists:
  "fs s (generation_output_file_path c) \<noteq> None \<Longrightarrow>
   coordinating w c s =
     (Exit 1, emit (Print (generation_output_file_path c @ '' already exists''))
                (emit (PathExists (generation_output_file_path c)) s))"
  by (simp add: coordinating_def Let_def)

lemma coordinating_events:
  "\<exists>evs. trace (snd (coordinating w c s)) = trace s @ PathExists (generation_output_file_path c) # evs \<and>
         (\<forall>ev\<in>set evs. ev = OpenFile (generation_output_file_path c) \<or>
                        ev = PrintRequest (request_object c) \<or>
                        ev = Generate (request_object c) \<or>
                        (\<exists>t. ev = FileWrite t) \<or> (\<exists>m. ev = Print m))"
proof (cases "fs s (generation_output_file_path c) \<noteq> None")
  case True
  then show ?thesis by (simp add: coordinating_exists)
next
  case False
  let ?p = "generation_output_file_path c"
  let ?s3 = "emit (PrintRequest (request_object c)) (open_wt ?p (emit (PathExists ?p) s))"
  show ?thesis
  proof (cases "round_count (generation_generation_len c) (dataset_batch_size c)")
    case (Inl e)
    with False show ?thesis by (simp add: coordinating_def Let_def)
  next
    case (Inr k)
    obtain r s4 where rl: "rounds_loop w c (request_object c) [0..<nat k] ?s3 = (r, s4)"
      by (cases "rounds_loop w c (request_object c) [0..<nat k] ?s3")
    from rounds_loop_trace [of w c "request_object c" "[0..<nat k]" ?s3] rl obtain evs where
      evs: "trace s4 = trace ?s3 @ evs"
        "\<forall>ev\<in>set evs. ev = Generate (request_object c) \<or> (\<exists>t. ev = FileWrite t)"
      by auto
    show ?thesis
    proof (cases r)
      case None
      have "trace (snd (coordinating w c s)) =
              trace s @ PathExists ?p # ([OpenFile ?p, PrintRequest (request_object c)] @ evs @ [Print (''Saved in '' @ ?p @ ''.'')])"
        using False Inr rl None evs(1) by (simp add: coordinating_def Let_def)
      moreover have "\<forall>ev\<in>set ([OpenFile ?p, PrintRequest (request_object c)] @ evs @ [Print (''Saved in '' @ ?p @ ''.'')]).
          ev = OpenFile ?p \<or> ev = PrintRequest (request_object c) \<or> ev = Generate (request_object c) \<or>
          (\<exists>t. ev = FileWrite t) \<or> (\<exists>m. ev = Print m)"
        using evs(2) by auto
      ultimately show ?thesis by blast
    next
      case (Some e)
      have "trace (snd (coordinating w c s)) =
              trace s @ PathExists ?p # ([OpenFile ?p, PrintRequest (request_object c)] @ evs)"
        using False Inr rl Some evs(1) by (simp add: coordinating_def Let_def)
      moreover have "\<forall>ev\<in>set ([OpenFile ?p, PrintRequest (request_object c)] @ evs).
          ev = OpenFile ?p \<or> ev = PrintRequest (request_object c) \<or> ev = Generate (request_object c) \<or>
          (\<exists>t. ev = FileWrite t) \<or> (\<exists>m. ev = Print m)"
        using evs(2) by auto
      ultimately show ?thesis by blast
    qed
  qed
qed

lemma fs_waiting: "fs (snd (waiting w i delivered s)) = fs s"
  by (induction w i delivered s rule: waiting.induct) (auto simp: Let_def split: option.splits sum.splits)

lemma printed_append [simp]: "printed (xs @ ys) = printed xs @ printed ys"
  by (simp add: printed_def)

lemma printed_Generate [simp]: "printed [Generate r] = []"
  by (simp add: printed_def)

lemma parmap_fails_canon_block: "parmap_fails w i \<Longrightarrow> canon_block w i smiles_batch = Inl PoolError"
  by (simp add: canon_block_def parmap_map_def)

lemma map_raise_Inr:
  "map_raise f xs = Inr ys \<Longrightarrow> length ys = length xs \<and> (\<forall>k<length xs. f (xs ! k) = Inr (ys ! k))"
proof (induction xs arbitrary: ys)
  case Nil
  then show ?case by simp
next
  case (Cons x xs)
  then obtain y ys' where y: "f x = Inr y" "map_raise f xs = Inr ys'" "ys = y # ys'"
    by (auto split: sum.splits)
  with Cons.IH [of ys'] show ?case by (auto simp: nth_Cons split: nat.splits)
qed

lemma smiles_batch_of_Inr:
  assumes "smiles_batch_of generations = Inr texts"
  shows "texts = map (\<lambda>x. cand_text (hd x)) generations" and "\<forall>x\<in>set generations. x \<noteq> []"
proof -
  from map_raise_Inr [OF assms [unfolded smiles_batch_of_def]]
  have len: "length texts = length generations"
    and nth: "\<forall>k<length generations. first_text (generations ! k) = Inr (texts ! k)" by auto
  show "texts = map (\<lambda>x. cand_text (hd x)) generations"
  proof (rule nth_equalityI)
    show "length texts = length (map (\<lambda>x. cand_text (hd x)) generations)" using len by simp
  next
    fix k assume "k < length texts"
    with len nth have "first_text (generations ! k) = Inr (texts ! k)" "k < length generations" by auto
    then show "texts ! k = map (\<lambda>x. cand_text (hd x)) generations ! k"
      by (auto simp: first_text_def split: list.splits)
  qed
  show "\<forall>x\<in>set generations. x \<noteq> []"
  proof
    fix x assume "x \<in> set generations"
    then obtain k where "k < length generations" "generations ! k = x" by (auto simp: in_set_conv_nth)
    with nth have "first_text x = Inr (texts ! k)" by auto
    then show "x \<noteq> []" by (auto simp: first_text_def)
  qed
qed

lemma first_text_take: "first_text (take 1 x) = first_text x"
  by (cases x) (simp_all add: first_text_def)

lemma map_raise_cong_map: "(\<And>x. f (g x) = f x) \<Longrightarrow> map_raise f (map g xs) = map_raise f xs"
  by (induction xs) (simp_all split: sum.splits)

lemma smiles_batch_of_take: "smiles_batch_of (map (take 1) generations) = smiles_batch_of generations"
  by (simp only: smiles_batch_of_def map_raise_cong_map [of first_text "take 1", OF first_text_take])

lemma split_lines_acc_line:
  "nl \<notin> set t \<Longrightarrow> split_lines_acc cur (t @ nl # rest) = (cur @ t) # split_lines_acc [] rest"
  by (induction t arbitrary: cur) auto

lemma split_lines_join:
  "texts \<noteq> [] \<Longrightarrow> \<forall>t\<in>set texts. nl \<notin> set t \<Longrightarrow> split_lines_acc [] (join [nl] texts @ [nl]) = texts"
proof (induction texts rule: induct_list012)
  case 1
  then show ?case by simp
next
  case (2 x)
  then show ?case using split_lines_acc_line [of x "[]" "[]"] by simp
next
  case (3 x y ys)
  then show ?case using split_lines_acc_line [of x "[]" "join [nl] (y # ys) @ [nl]"] by simp
qed

lemma canon_block_generate_update:
  "canon_block (w\<lparr>generator_generate := g\<rparr>) i smiles_batch = canon_block w i smiles_batch"
proof -
  have "make_caninical_smiles (w\<lparr>generator_generate := g\<rparr>) = make_caninical_smiles w"
    by (rule ext) (simp add: make_caninical_smiles_def split: sum.splits)
  then show ?thesis by (simp add: canon_block_def)
qed

subsection \<open>The number of rounds\<close>

lemma ceil_div_unique:
  fixes m T k :: int
  assumes "k * T < m" "m \<le> (k + 1) * T"
  shows "- ((- m) div T) = k + 1"
proof -
  have "(k + 1) * T = k * T + T" by (simp add: algebra_simps)
  then have T: "0 < T" using assms by linarith
  have "- m = T * (- (k + 1)) + ((k + 1) * T - m)" by (simp add: algebra_simps)
  moreover have "0 \<le> (k + 1) * T - m" using assms by simp
  moreover have "(k + 1) * T - m < T" using assms by (simp add: algebra_simps)
  ultimately have "(- m) div T = - (k + 1)" by (rule int_div_pos_eq)
  then show ?thesis by simp
qed

lemma rhe_ceil:
  fixes a b T :: int
  assumes "0 < a" "0 < b" "0 < T" "b < 2 * T"
  shows "- ((- round_half_even (a * T) b) div T) = (a + b - 1) div b"
proof -
  define k where "k = a div b"
  define r where "r = a mod b"
  have a: "a = b * k + r" and r0: "0 \<le> r" and rb: "r < b"
    using assms(2) by (simp_all add: k_def r_def)
  have aT: "a * T = b * (k * T) + r * T" by (simp add: a algebra_simps)
  show ?thesis
  proof (cases "r = 0")
    case True
    have aT0: "a * T = b * (k * T) + 0" using aT True by simp
    have q: "(a * T) div b = k * T"
      using aT0 by (rule int_div_pos_eq) (use assms(2) in simp_all)
    have R: "(a * T) mod b = 0"
      using aT0 by (rule int_mod_pos_eq) (use assms(2) in simp_all)
    have m: "round_half_even (a * T) b = k * T"
      using assms(2) by (simp add: round_half_even_def Let_def q R)
    have "- (k * T) = T * (- k) + 0" by simp
    then have "(- (k * T)) div T = - k"
      by (rule int_div_pos_eq) (use assms(3) in simp_all)
    moreover have "(a + b - 1) div b = k"
    proof (rule int_div_pos_eq)
      show "a + b - 1 = b * k + (b - 1)" using a True by simp
    qed (use assms(2) in simp_all)
    ultimately show ?thesis by (simp add: m)
  next
    case False
    then have rpos: "1 \<le> r" using r0 by simp
    define q' where "q' = (r * T) div b"
    define R where "R = (r * T) mod b"
    have rT: "r * T = b * q' + R" and R0: "0 \<le> R" and Rb: "R < b"
      using assms(2) by (simp_all add: q'_def R_def)
    have q'0: "0 \<le> q'" using r0 assms by (simp add: q'_def pos_imp_zdiv_nonneg_iff)
    have "r * T < b * T" using rb assms(3) by simp
    then have "b * q' < b * T" using rT R0 by linarith
    then have q'T: "q' < T" using assms(2) by simp
    have q: "(a * T) div b = k * T + q'"
    proof (rule int_div_pos_eq)
      show "a * T = b * (k * T + q') + R" using aT rT by (simp add: algebra_simps)
    qed (rule R0 Rb)+
    have Rm: "(a * T) mod b = R"
    proof (rule int_mod_pos_eq)
      show "a * T = b * (k * T + q') + R" using aT rT by (simp add: algebra_simps)
    qed (rule R0 Rb)+
    have up: "q' = 0 \<Longrightarrow> b < 2 * R"
    proof -
      assume "q' = 0"
      then have "R = r * T" using rT by simp
      moreover have "T \<le> r * T" using rpos assms(3) by (simp add: mult_le_cancel_right1)
      ultimately show ?thesis using assms(4) by linarith
    qed
    let ?m = "round_half_even (a * T) b"
    have m_cases: "?m = k * T + q' \<or> ?m = k * T + q' + 1"
      by (simp add: round_half_even_def Let_def q Rm)
    have m_lo: "k * T < ?m"
    proof (cases "q' = 0")
      case True
      then have "?m = k * T + 1" using up by (simp add: round_half_even_def Let_def q Rm)
      then show ?thesis by simp
    next
      case False
      then show ?thesis using q'0 m_cases by auto
    qed
    have m_hi: "?m \<le> (k + 1) * T" using m_cases q'T by (auto simp: algebra_simps)
    have "- ((- ?m) div T) = k + 1" using m_lo m_hi by (rule ceil_div_unique)
    moreover have "(a + b - 1) div b = k + 1"
    proof (rule int_div_pos_eq)
      show "a + b - 1 = b * (k + 1) + (r - 1)" using a by (simp add: algebra_simps)
    qed (use rpos rb in simp_all)
    ultimately show ?thesis by simp
  qed
qed

lemma round_count_exact:
  assumes "0 < a" "a < 2 ^ 53" "0 < b" "b < 2 ^ 53"
  shows "round_count a b = Inr ((a + b - 1) div b)"
proof -
  define e where "e = floor_log2_quot a b"
  define T :: int where "T = 2 ^ nat (52 - e)"
  have bla: "1 \<le> bitlen a" "bitlen a \<le> 53"
    using assms(1,2) by (simp_all add: bitlen_ge_iff_power bitlen_le_iff_power)
  have blb: "1 \<le> bitlen b" "bitlen b \<le> 53"
    using assms(3,4) by (simp_all add: bitlen_ge_iff_power bitlen_le_iff_power)
  have e_cases: "e = bitlen a - bitlen b \<or> e = bitlen a - bitlen b - 1"
    by (simp add: e_def floor_log2_quot_def Let_def)
  have e_hi: "e \<le> 52" and e_lo: "- 53 \<le> e"
    using e_cases bla blb by auto
  have "bitlen b \<le> 53 - e" using e_cases bla by auto
  then have "b < 2 ^ nat (53 - e)" by (simp add: bitlen_le_iff_power)
  moreover have "nat (53 - e) = Suc (nat (52 - e))" using e_hi by simp
  ultimately have bT: "b < 2 * T" by (simp add: T_def)
  have Tpos: "0 < T" by (simp add: T_def)
  define m where "m = round_half_even (a * T) b"
  have ceil: "- ((- m) div T) = (a + b - 1) div b"
    unfolding m_def using assms(1,3) Tpos bT by (rule rhe_ceil)
  have le_a: "(a + b - 1) div b \<le> a"
  proof -
    have "(a + b - 1) div b \<le> (a * b) div b"
    proof (rule zdiv_mono1)
      have "(a - 1) * (b - 1) \<ge> 0" using assms(1,3) by simp
      then show "a + b - 1 \<le> a * b" by (simp add: algebra_simps)
    qed (rule assms(3))
    then show ?thesis using assms(3) by simp
  qed
  show ?thesis
  proof (cases "e = 52")
    case True
    then have T1: "T = 1" by (simp add: T_def)
    have m_eq: "m = (a + b - 1) div b" using ceil by (simp add: T1)
    have "m < 2 ^ 1024"
    proof -
      have "m < 2 ^ 53" using m_eq le_a assms(2) by linarith
      also have "(2::int) ^ 53 < 2 ^ 1024" by simp
      finally show ?thesis .
    qed
    then show ?thesis
      using assms(1,3) True m_eq
      by (simp add: round_count_def int_truediv_def Let_def math_ceil_def e_def [symmetric]
            m_def [unfolded T1, simplified])
  next
    case False
    then have ne: "\<not> 52 \<le> e" using e_hi by simp
    have smax: "max (e - 52) (- 1074) = e - 52" using e_lo by simp
    show ?thesis
      using assms(1,3) ceil [unfolded m_def T_def] ne
      by (simp add: round_count_def int_truediv_def Let_def math_ceil_def e_def [symmetric] smax)
  qed
qed

lemma exact_ceil_div: "0 < b \<Longrightarrow> exact_ceil a b = (a + b - 1) div b"
proof -
  assume b: "0 < b"
  have "- (rat_of_int a / rat_of_int b) = rat_of_int (- a) / rat_of_int b" by simp
  then have "exact_ceil a b = - ((- a) div b)"
    unfolding exact_ceil_def ceiling_def by (simp only: floor_divide_of_int_eq)
  also have "\<dots> = (a + b - 1) div b"
  proof -
    have "(- a) div b = - ((a + b - 1) div b)"
    proof (rule int_div_pos_eq)
      show "- a = b * - ((a + b - 1) div b) + (b - 1 - (a + b - 1) mod b)"
        using div_mult_mod_eq [of "a + b - 1" b] by (simp add: algebra_simps)
      show "0 \<le> b - 1 - (a + b - 1) mod b"
        using pos_mod_bound [OF b, of "a + b - 1"] by simp
      show "b - 1 - (a + b - 1) mod b < b"
        using pos_mod_sign [OF b, of "a + b - 1"] by simp
    qed
    then show ?thesis by simp
  qed
  finally show ?thesis .
qed

lemma exact_ceil_bounds:
  assumes "0 < b"
  shows "a \<le> exact_ceil a b * b" and "exact_ceil a b * b < a + b"
proof -
  let ?k = "(a + b - 1) div b"
  have eq: "a + b - 1 = ?k * b + (a + b - 1) mod b" by simp
  have m0: "0 \<le> (a + b - 1) mod b" and mb: "(a + b - 1) mod b < b"
    using assms by simp_all
  have k: "exact_ceil a b * b = a + b - 1 - (a + b - 1) mod b"
    unfolding exact_ceil_div [OF assms] using eq by linarith
  show "a \<le> exact_ceil a b * b" using k m0 mb by linarith
  show "exact_ceil a b * b < a + b" using k m0 mb by linarith
qed

subsection \<open>Rounds that are served, rounds that go through in full\<close>

lemma count_lines_append [simp]: "count_lines (xs @ ys) = count_lines xs + count_lines ys"
  by (simp add: count_lines_def)

lemma count_lines_free: "nl \<notin> set t \<Longrightarrow> count_lines t = 0"
  by (induction t) (auto simp: count_lines_def)

lemma count_lines_nl [simp]: "count_lines [nl] = 1"
  by (simp add: count_lines_def)

lemma count_lines_Nil [simp]: "count_lines [] = 0"
  by (simp add: count_lines_def)

lemma count_lines_Cons [simp]:
  "count_lines (ch # cs) = (if ch = nl then 1 else 0) + count_lines cs"
  by (simp add: count_lines_def)

lemma count_lines_join:
  "\<forall>t\<in>set xs. nl \<notin> set t \<Longrightarrow> count_lines (join [nl] xs) = length xs - 1"
  by (induction xs rule: induct_list012) (simp_all add: count_lines_free)

lemma count_lines_block:
  "xs \<noteq> [] \<Longrightarrow> \<forall>t\<in>set xs. nl \<notin> set t \<Longrightarrow> count_lines (join [nl] xs @ [nl]) = length xs"
  by (cases xs) (simp_all add: count_lines_join)

lemma generate_calls_append [simp]: "generate_calls (xs @ ys) = generate_calls xs @ generate_calls ys"
  by (simp add: generate_calls_def)

lemma generate_calls_simps [simp]:
  "generate_calls [] = []"
  "generate_calls (Generate r # tr) = r # generate_calls tr"
  "generate_calls (FileWrite t # tr) = generate_calls tr"
  "generate_calls (LoadModel # tr) = generate_calls tr"
  "generate_calls (Publish v # tr) = generate_calls tr"
  "generate_calls (PathExists p # tr) = generate_calls tr"
  "generate_calls (OpenFile p # tr) = generate_calls tr"
  "generate_calls (Print m # tr) = generate_calls tr"
  "generate_calls (PrintRequest r # tr) = generate_calls tr"
  by (simp_all add: generate_calls_def)

lemma served_round_body:
  assumes "served_round w c i"
  shows "\<exists>s'. round_body w c (request_object c) i s = (None, s') \<and>
          generate_calls (trace s') = generate_calls (trace s) @ [request_object c]"
  using assms
  by (auto simp: served_round_def round_body_def Let_def split: sum.splits)

lemma served_rounds_loop:
  assumes "\<forall>i\<in>set rounds. served_round w c i"
  shows "\<exists>s'. rounds_loop w c (request_object c) rounds s = (None, s') \<and>
          generate_calls (trace s') = generate_calls (trace s) @ replicate (length rounds) (request_object c)"
  using assms
proof (induction rounds arbitrary: s)
  case Nil
  then show ?case by simp
next
  case (Cons i rest)
  from served_round_body [of w c i s] Cons.prems obtain s1 where
    s1: "round_body w c (request_object c) i s = (None, s1)"
      "generate_calls (trace s1) = generate_calls (trace s) @ [request_object c]"
    by auto
  from Cons.IH [of s1] Cons.prems obtain s' where
    s': "rounds_loop w c (request_object c) rest s1 = (None, s')"
      "generate_calls (trace s') = generate_calls (trace s1) @ replicate (length rest) (request_object c)"
    by auto
  have "rounds_loop w c (request_object c) (i # rest) s = (None, s')" using s1(1) s'(1) by simp
  moreover have "generate_calls (trace s') =
      generate_calls (trace s) @ replicate (length (i # rest)) (request_object c)"
    using s1(2) s'(2) by simp
  ultimately show ?case by blast
qed

lemma join_opt_all_Some:
  "list_all (\<lambda>r. case r of None \<Rightarrow> False | Some cs \<Rightarrow> P cs) canon \<Longrightarrow>
   join_opt sep canon = Inr (join sep (map the canon)) \<and> (\<forall>t\<in>set (map the canon). P t)"
  by (auto simp: join_opt_def list_all_iff split: option.splits)

lemma clean_round_body:
  assumes clean: "clean_round w c i" and bs: "0 < dataset_batch_size c"
    and old: "fs s (generation_output_file_path c) = Some old"
  shows "\<exists>blk. round_body w c (request_object c) i s =
           (None, write_func (generation_output_file_path c) blk (emit (Generate (request_object c)) s)) \<and>
         count_lines blk = nat (dataset_batch_size c)"
proof -
  from clean obtain generations texts where
    g: "generator_generate w i (request_object c) = Inr generations"
      "int (length generations) = dataset_batch_size c"
      "smiles_batch_of generations = Inr texts"
    by (auto simp: clean_round_def split: sum.splits)
  have len: "length texts = nat (dataset_batch_size c)"
    using smiles_batch_of_Inr(1) [OF g(3)] g(2) by simp
  then have ne: "texts \<noteq> []" using bs by auto
  show ?thesis
  proof (cases "generation_mol_repr c = ''smiles''")
    case True
    with clean g have free: "\<forall>t\<in>set texts. nl \<notin> set t"
      by (simp add: clean_round_def list_all_iff)
    have "round_body w c (request_object c) i s =
        (None, write_func (generation_output_file_path c) (join [nl] texts @ [nl])
                 (emit (Generate (request_object c)) s))"
      using g True by (simp add: round_body_def Let_def)
    moreover have "count_lines (join [nl] texts @ [nl]) = nat (dataset_batch_size c)"
      using count_lines_block [OF ne free] len by simp
    ultimately show ?thesis by blast
  next
    case False
    with clean g obtain canon where
      canon: "parmap_map (parmap_fails w i) (make_caninical_smiles w) texts = Inr canon"
        "list_all (\<lambda>r. case r of None \<Rightarrow> False | Some cs \<Rightarrow> nl \<notin> set cs) canon"
      by (auto simp: clean_round_def split: sum.splits)
    have lc: "length canon = length texts"
      using canon(1) map_raise_Inr [of "make_caninical_smiles w" texts canon]
      by (simp add: parmap_map_def split: if_splits)
    from join_opt_all_Some [OF canon(2), of "[nl]"]
    have jo: "join_opt [nl] canon = Inr (join [nl] (map the canon))"
      and free: "\<forall>t\<in>set (map the canon). nl \<notin> set t" by auto
    have ne': "map the canon \<noteq> []" using ne lc by auto
    have "round_body w c (request_object c) i s =
        (None, write_func (generation_output_file_path c) (join [nl] (map the canon) @ [nl])
                 (emit (Generate (request_object c)) s))"
      using g False canon(1) jo by (simp add: round_body_def Let_def canon_block_def)
    moreover have "count_lines (join [nl] (map the canon) @ [nl]) = nat (dataset_batch_size c)"
      using count_lines_block [OF ne' free] len lc by simp
    ultimately show ?thesis by blast
  qed
qed

lemma clean_rounds_loop:
  assumes "\<forall>i\<in>set rounds. clean_round w c i" and "0 < dataset_batch_size c"
    and "fs s (generation_output_file_path c) = Some old"
  shows "\<exists>new. fs (snd (rounds_loop w c (request_object c) rounds s)) (generation_output_file_path c) = Some new \<and>
          count_lines new = count_lines old + length rounds * nat (dataset_batch_size c)"
  using assms
proof (induction rounds arbitrary: s old)
  case Nil
  then show ?case by simp
next
  case (Cons i rest)
  let ?p = "generation_output_file_path c"
  from clean_round_body [of w c i s old] Cons.prems obtain blk where
    blk: "round_body w c (request_object c) i s =
            (None, write_func ?p blk (emit (Generate (request_object c)) s))"
      "count_lines blk = nat (dataset_batch_size c)"
    by auto
  let ?s1 = "write_func ?p blk (emit (Generate (request_object c)) s)"
  have f1: "fs ?s1 ?p = Some (old @ blk)" using Cons.prems(3) by simp
  from Cons.IH [of ?s1 "old @ blk"] Cons.prems f1 obtain new where
    new: "fs (snd (rounds_loop w c (request_object c) rest ?s1)) ?p = Some new"
      "count_lines new = count_lines (old @ blk) + length rest * nat (dataset_batch_size c)"
    by auto
  have "fs (snd (rounds_loop w c (request_object c) (i # rest) s)) ?p = Some new"
    using blk(1) new(1) by simp
  moreover have "count_lines new = count_lines old + length (i # rest) * nat (dataset_batch_size c)"
    using new(2) blk(2) by simp
  ultimately show ?case by blast
qed


lemma coordinating_served:
  assumes fresh: "fs s (generation_output_file_path c) = None"
    and k: "round_count (generation_generation_len c) (dataset_batch_size c) = Inr k"
    and served: "\<forall>i<nat k. served_round w c i"
  shows "fst (coordinating w c s) = Exit 0"
    and "generate_calls (trace (snd (coordinating w c s))) =
           generate_calls (trace s) @ replicate (nat k) (request_object c)"
    and "fs (snd (coordinating w c s)) =
           fs (snd (rounds_loop w c (request_object c) [0..<nat k]
             (emit (PrintRequest (request_object c))
               (open_wt (generation_output_file_path c)
                 (emit (PathExists (generation_output_file_path c)) s)))))"
proof -
  let ?p = "generation_output_file_path c"
  let ?s3 = "emit (PrintRequest (request_object c)) (open_wt ?p (emit (PathExists ?p) s))"
  have "\<forall>i\<in>set [0..<nat k]. served_round w c i" using served by simp
  from served_rounds_loop [OF this, of ?s3] obtain s4 where
    s4: "rounds_loop w c (request_object c) [0..<nat k] ?s3 = (None, s4)"
      "generate_calls (trace s4) = generate_calls (trace ?s3) @ replicate (length [0..<nat k]) (request_object c)"
    by blast
  have co: "coordinating w c s = (Exit 0, emit (Print (''Saved in '' @ ?p @ ''.'')) s4)"
    using fresh k s4(1) by (simp add: coordinating_def Let_def)
  show "fst (coordinating w c s) = Exit 0" by (simp add: co)
  show "generate_calls (trace (snd (coordinating w c s))) =
           generate_calls (trace s) @ replicate (nat k) (request_object c)"
    using s4(2) by (simp add: co)
  show "fs (snd (coordinating w c s)) = fs (snd (rounds_loop w c (request_object c) [0..<nat k] ?s3))"
    by (simp add: co s4(1))
qed

subsection \<open>The claims\<close>

text \<open>
  C9. \<open>make_caninical_smiles\<close> never raises from the canonicalisation step: when the
  canonicalisation of the decoded string fails the function returns \<open>None\<close>, when it
  succeeds the canonical string. Only that step is guarded: an exception of the SELFIES
  decoder leaves the function.
\<close>

theorem make_caninical_smiles_guard:
  "(sf_decoder w selfies = Inl e \<longrightarrow> make_caninical_smiles w selfies = Inl e) \<and>
   (sf_decoder w selfies = Inr smiles \<longrightarrow>
      (\<exists>r. make_caninical_smiles w selfies = Inr r) \<and>
      (Chem_canonical w smiles = Inl e' \<longrightarrow> make_caninical_smiles w selfies = Inr None) \<and>
      (Chem_canonical w smiles = Inr cs \<longrightarrow> make_caninical_smiles w selfies = Inr (Some cs)))"
  by (simp add: make_caninical_smiles_def split: sum.splits)

theorem make_caninical_smiles_guard_witness:
  "sf_decoder abcd_world ''garbage'' = Inl DecoderError \<and>
   make_caninical_smiles abcd_world ''garbage'' = Inl DecoderError \<and>
   sf_decoder abcd_world ''[garbage]'' = Inr ''[garbage]'' \<and>
   Chem_canonical abcd_world ''[garbage]'' = Inl ChemError \<and>
   make_caninical_smiles abcd_world ''[garbage]'' = Inr None \<and>
   sf_decoder abcd_world ''[C]'' = Inr ''[C]'' \<and>
   Chem_canonical abcd_world ''[C]'' = Inr ''[C]'' \<and>
   make_caninical_smiles abcd_world ''[C]'' = Inr (Some ''[C]'')"
proof -
  let ?w = abcd_world
  have d1: "sf_decoder ?w ''garbage'' = Inl DecoderError"
    and d2: "sf_decoder ?w ''[garbage]'' = Inr ''[garbage]''"
    and d3: "sf_decoder ?w ''[C]'' = Inr ''[C]''"
    and c2: "Chem_canonical ?w ''[garbage]'' = Inl ChemError"
    and c3: "Chem_canonical ?w ''[C]'' = Inr ''[C]''"
    by (simp_all add: abcd_world_def demo_world_def demo_decoder_def demo_canonical_def)
  from make_caninical_smiles_guard [of ?w "''garbage''" DecoderError] d1
  have r1: "make_caninical_smiles ?w ''garbage'' = Inl DecoderError" by blast
  from make_caninical_smiles_guard [of ?w "''[garbage]''" _ "''[garbage]''" ChemError] d2 c2
  have r2: "make_caninical_smiles ?w ''[garbage]'' = Inr None" by blast
  from make_caninical_smiles_guard [of ?w "''[C]''" _ "''[C]''" _ "''[C]''"] d3 c3
  have r3: "make_caninical_smiles ?w ''[C]'' = Inr (Some ''[C]'')" by blast
  from d1 d2 d3 c2 c3 r1 r2 r3 show ?thesis by blast
qed

text \<open>
  C4. When the configured output path already references a file at the start of the run,
  no process changes the file system, whatever its role. The process that owns the output
  (rank 0, or the only process of a run without process group) checks the path exactly
  once in every run, existing file or not; before the check it has only loaded the model
  and, in a process group, made its initial broadcast; and when the path exists it ends
  with exit code 1 without opening the file, calling the generation service or writing.
\<close>

theorem existing_output_path_guard:
  "(files (generation_output_file_path c) \<noteq> None \<longrightarrow>
      fs (snd (worker_main w c rank delivered files)) = files) \<and>
   (rank = None \<or> rank = Some 0 \<longrightarrow>
      count_list (trace (snd (worker_main w c rank delivered files)))
        (PathExists (generation_output_file_path c)) = 1 \<and>
      (\<forall>ev \<in> set (takeWhile (\<lambda>ev. ev \<noteq> PathExists (generation_output_file_path c))
                     (trace (snd (worker_main w c rank delivered files)))).
         ev = LoadModel \<or> ev = Publish None) \<and>
      (files (generation_output_file_path c) \<noteq> None \<longrightarrow>
         fst (worker_main w c rank delivered files) = Exit 1 \<and>
         (\<forall>ev \<in> set (trace (snd (worker_main w c rank delivered files))).
            ev \<noteq> OpenFile (generation_output_file_path c) \<and>
            (\<forall>r. ev \<noteq> Generate r) \<and> (\<forall>t. ev \<noteq> FileWrite t))))"
proof -
  let ?p = "generation_output_file_path c"
  let ?R = "worker_main w c rank delivered files"
  let ?s1 = "emit LoadModel \<lparr>fs = files, trace = []\<rparr>"
  have unchanged: "fs (snd ?R) = files" if ex: "files ?p \<noteq> None"
  proof (cases rank)
    case None
    with ex show ?thesis by (simp add: worker_main_def Let_def coordinating_exists)
  next
    case (Some r)
    show ?thesis
    proof (cases "r = 0")
      case True
      with Some ex show ?thesis by (simp add: worker_main_def Let_def coordinating_exists)
    next
      case False
      with Some show ?thesis
        by (cases delivered) (simp_all add: worker_main_def Let_def fs_waiting)
    qed
  qed
  have coord: "count_list (trace (snd ?R)) (PathExists ?p) = 1 \<and>
      (\<forall>ev \<in> set (takeWhile (\<lambda>ev. ev \<noteq> PathExists ?p) (trace (snd ?R))).
         ev = LoadModel \<or> ev = Publish None) \<and>
      (files ?p \<noteq> None \<longrightarrow>
         fst ?R = Exit 1 \<and>
         (\<forall>ev \<in> set (trace (snd ?R)).
            ev \<noteq> OpenFile ?p \<and> (\<forall>r. ev \<noteq> Generate r) \<and> (\<forall>t. ev \<noteq> FileWrite t)))"
    if role: "rank = None \<or> rank = Some 0"
  proof -
    define pre where "pre = (if rank = None then [LoadModel] else [LoadModel, Publish None])"
    define s where "s = (if rank = None then ?s1 else emit (Publish None) ?s1)"
    have R: "?R = coordinating w c s" and tr: "trace s = pre" and fss: "fs s = files"
      using role by (auto simp: worker_main_def Let_def s_def pre_def)
    from coordinating_events [of w c s] obtain evs where
      evs: "trace (snd (coordinating w c s)) = pre @ PathExists ?p # evs"
        "\<forall>ev\<in>set evs. ev = OpenFile ?p \<or> ev = PrintRequest (request_object c) \<or>
            ev = Generate (request_object c) \<or> (\<exists>t. ev = FileWrite t) \<or> (\<exists>m. ev = Print m)"
      using tr by auto
    have pre_no: "\<forall>ev\<in>set pre. ev \<noteq> PathExists ?p" by (simp add: pre_def)
    have evs_no: "\<forall>ev\<in>set evs. ev \<noteq> PathExists ?p" using evs(2) by auto
    have c0: "count_list pre (PathExists ?p) = 0" "count_list evs (PathExists ?p) = 0"
      using pre_no evs_no by (auto simp: count_list_0_iff)
    have one: "count_list (trace (snd ?R)) (PathExists ?p) = 1"
      using c0 by (simp add: R evs(1))
    have tw: "takeWhile (\<lambda>ev. ev \<noteq> PathExists ?p) (trace (snd ?R)) = pre"
      using pre_no by (simp add: R evs(1) takeWhile_append2)
    have before: "\<forall>ev \<in> set (takeWhile (\<lambda>ev. ev \<noteq> PathExists ?p) (trace (snd ?R))).
         ev = LoadModel \<or> ev = Publish None"
      unfolding tw by (simp add: pre_def)
    have abort: "fst ?R = Exit 1 \<and>
         (\<forall>ev \<in> set (trace (snd ?R)).
            ev \<noteq> OpenFile ?p \<and> (\<forall>r. ev \<noteq> Generate r) \<and> (\<forall>t. ev \<noteq> FileWrite t))"
      if ex: "files ?p \<noteq> None"
    proof -
      have "fs s ?p \<noteq> None" using ex fss by simp
      then have "coordinating w c s = (Exit 1, emit (Print (?p @ '' already exists'')) (emit (PathExists ?p) s))"
        by (rule coordinating_exists)
      then show ?thesis using tr by (auto simp: R pre_def split: if_splits)
    qed
    from one before abort show ?thesis by blast
  qed
  from unchanged coord show ?thesis by blast
qed

theorem existing_output_path_guard_witness:
  "existing_files (generation_output_file_path (demo_cfg ''selfies'' 2 2)) \<noteq> None \<and>
   fs (snd (worker_main abcd_world (demo_cfg ''selfies'' 2 2) (Some 0) [] existing_files)) = existing_files \<and>
   fst (worker_main abcd_world (demo_cfg ''selfies'' 2 2) (Some 0) [] existing_files) = Exit 1 \<and>
   count_list (trace (snd (worker_main abcd_world (demo_cfg ''selfies'' 2 2) (Some 0) [] existing_files)))
     (PathExists (generation_output_file_path (demo_cfg ''selfies'' 2 2))) = 1"
proof -
  have h: "existing_files (generation_output_file_path (demo_cfg ''selfies'' 2 2)) \<noteq> None"
    by (simp add: existing_files_def demo_cfg_def)
  from existing_output_path_guard [of existing_files "demo_cfg ''selfies'' 2 2" abcd_world "Some 0" "[]"] h
  show ?thesis by blast
qed

text \<open>
  C7, as amended. When the configured output path already exists, the owner of the output
  aborts with the message and exit code 1 before the file is opened and before any call of
  the generation service, but after the generation service handle has been constructed and
  the model loaded: loading the model is the first effect of every process, and the path
  is checked after it (and after the initial broadcast of rank 0).
\<close>

theorem abort_after_model_load:
  "files (generation_output_file_path c) \<noteq> None \<Longrightarrow>
   worker_main w c None delivered files =
     (Exit 1, \<lparr>fs = files,
               trace = [LoadModel, PathExists (generation_output_file_path c),
                        Print (generation_output_file_path c @ '' already exists'')]\<rparr>) \<and>
   worker_main w c (Some 0) delivered files =
     (Exit 1, \<lparr>fs = files,
               trace = [LoadModel, Publish None, PathExists (generation_output_file_path c),
                        Print (generation_output_file_path c @ '' already exists'')]\<rparr>)"
  by (simp add: worker_main_def Let_def coordinating_exists emit_def)

theorem abort_after_model_load_witness:
  "existing_files (generation_output_file_path (demo_cfg ''smiles'' 10 4)) \<noteq> None \<and>
   worker_main abcd_world (demo_cfg ''smiles'' 10 4) None [] existing_files =
     (Exit 1, \<lparr>fs = existing_files,
               trace = [LoadModel, PathExists ''out.csv'', Print ''out.csv already exists'']\<rparr>)"
proof -
  have h: "existing_files (generation_output_file_path (demo_cfg ''smiles'' 10 4)) \<noteq> None"
    by (simp add: existing_files_def demo_cfg_def)
  have p: "generation_output_file_path (demo_cfg ''smiles'' 10 4) = ''out.csv''"
    by (simp add: demo_cfg_def)
  from abort_after_model_load [of existing_files "demo_cfg ''smiles'' 10 4" abcd_world "[]"] h
  show ?thesis by (simp add: p)
qed

text \<open>
  The statement of C7 itself fails: in the run below the output path exists and the model
  is loaded before the path is checked.
\<close>

theorem model_loaded_before_check_counterexample:
  "existing_files ''out.csv'' \<noteq> None \<and>
   trace (snd (worker_main abcd_world (demo_cfg ''smiles'' 10 4) None [] existing_files)) =
     [LoadModel, PathExists ''out.csv'', Print ''out.csv already exists''] \<and>
   LoadModel \<in> set (takeWhile (\<lambda>ev. ev \<noteq> PathExists ''out.csv'')
      (trace (snd (worker_main abcd_world (demo_cfg ''smiles'' 10 4) None [] existing_files))))"
  by code_simp

text \<open>
  C3. The claim asks rank 0 to publish the request of every round before it calls the
  generation service. The code does not: rank 0 never publishes a request. Its only
  broadcast is the initial one, of \<open>None\<close>, for every configuration; in the run below
  (rank 0 of a process group, one round of one prompt) it calls the generation service
  once without a broadcast, and a process of another rank that is delivered what rank 0
  published stays blocked in its loop without a single call of the generation service.
\<close>

theorem coordinator_request_not_broadcast:
  "(\<forall>r. Publish (Some r) \<notin> set (trace (snd (worker_main w c (Some 0) delivered files)))) \<and>
   trace (snd (worker_main (demo_world (\<lambda>i req. Inr [one ''C'']) (\<lambda>i. False)) (demo_cfg ''smiles'' 1 1) (Some 0) [] Map.empty)) =
     [LoadModel, Publish None, PathExists ''out.csv'', OpenFile ''out.csv'',
      PrintRequest (request_object (demo_cfg ''smiles'' 1 1)),
      Generate (request_object (demo_cfg ''smiles'' 1 1)),
      FileWrite (''C'' @ [nl]), Print ''Saved in out.csv.''] \<and>
   fst (worker_main (demo_world (\<lambda>i req. Inr [one ''C'']) (\<lambda>i. False)) (demo_cfg ''smiles'' 1 1) (Some 1) [None] Map.empty) = Blocked \<and>
   trace (snd (worker_main (demo_world (\<lambda>i req. Inr [one ''C'']) (\<lambda>i. False)) (demo_cfg ''smiles'' 1 1) (Some 1) [None] Map.empty)) =
     [LoadModel, Receive None]"
proof -
  let ?s = "emit (Publish None) (emit LoadModel \<lparr>fs = files, trace = []\<rparr>)"
  have R: "worker_main w c (Some 0) delivered files = coordinating w c ?s"
    by (simp add: worker_main_def Let_def)
  from coordinating_events [of w c ?s] obtain evs where
    evs: "trace (snd (coordinating w c ?s)) = [LoadModel, Publish None] @ PathExists (generation_output_file_path c) # evs"
      "\<forall>ev\<in>set evs. ev = OpenFile (generation_output_file_path c) \<or> ev = PrintRequest (request_object c) \<or>
            ev = Generate (request_object c) \<or> (\<exists>t. ev = FileWrite t) \<or> (\<exists>m. ev = Print m)"
    by auto
  have gen: "\<forall>r. Publish (Some r) \<notin> set (trace (snd (worker_main w c (Some 0) delivered files)))"
    using evs by (auto simp: R)
  have c1: "trace (snd (worker_main (demo_world (\<lambda>i req. Inr [one ''C'']) (\<lambda>i. False)) (demo_cfg ''smiles'' 1 1) (Some 0) [] Map.empty)) =
     [LoadModel, Publish None, PathExists ''out.csv'', OpenFile ''out.csv'',
      PrintRequest (request_object (demo_cfg ''smiles'' 1 1)),
      Generate (request_object (demo_cfg ''smiles'' 1 1)),
      FileWrite (''C'' @ [nl]), Print ''Saved in out.csv.'']"
    by code_simp
  have c2: "fst (worker_main (demo_world (\<lambda>i req. Inr [one ''C'']) (\<lambda>i. False)) (demo_cfg ''smiles'' 1 1) (Some 1) [None] Map.empty) = Blocked"
    by code_simp
  have c3: "trace (snd (worker_main (demo_world (\<lambda>i req. Inr [one ''C'']) (\<lambda>i. False)) (demo_cfg ''smiles'' 1 1) (Some 1) [None] Map.empty)) =
     [LoadModel, Receive None]"
    by code_simp
  from gen c1 c2 c3 show ?thesis by blast
qed

text \<open>
  C2. The claim asks that a round with exactly one failing item is persisted with a
  sentinel in its place. The code does not: in the runs below (validate mode, one round of
  two prompts) the first text canonicalises and the second does not. When the
  canonicalisation fails, \<open>make_caninical_smiles\<close> returns \<open>None\<close>, joining the batch
  raises \<open>TypeError\<close>, and the bare \<open>except\<close> drops the round; when the decoder raises,
  the exception leaves \<open>parmap.map\<close> and the round is dropped as well. The run ends with
  exit code 0 and an empty file.
\<close>

theorem single_invalid_item_drops_round:
  "make_caninical_smiles (pair_world ''[C]'' ''[garbage]'' (\<lambda>i. False)) ''[C]'' = Inr (Some ''[C]'') \<and>
   make_caninical_smiles (pair_world ''[C]'' ''[garbage]'' (\<lambda>i. False)) ''[garbage]'' = Inr None \<and>
   fst (worker_main (pair_world ''[C]'' ''[garbage]'' (\<lambda>i. False)) (demo_cfg ''selfies'' 2 2) None [] Map.empty) = Exit 0 \<and>
   fs (snd (worker_main (pair_world ''[C]'' ''[garbage]'' (\<lambda>i. False)) (demo_cfg ''selfies'' 2 2) None [] Map.empty)) ''out.csv'' = Some [] \<and>
   trace (snd (worker_main (pair_world ''[C]'' ''[garbage]'' (\<lambda>i. False)) (demo_cfg ''selfies'' 2 2) None [] Map.empty)) =
     [LoadModel, PathExists ''out.csv'', OpenFile ''out.csv'',
      PrintRequest (request_object (demo_cfg ''selfies'' 2 2)),
      Generate (request_object (demo_cfg ''selfies'' 2 2)), Print ''Saved in out.csv.''] \<and>
   make_caninical_smiles (pair_world ''[C]'' ''garbage'' (\<lambda>i. False)) ''garbage'' = Inl DecoderError \<and>
   fst (worker_main (pair_world ''[C]'' ''garbage'' (\<lambda>i. False)) (demo_cfg ''selfies'' 2 2) None [] Map.empty) = Exit 0 \<and>
   fs (snd (worker_main (pair_world ''[C]'' ''garbage'' (\<lambda>i. False)) (demo_cfg ''selfies'' 2 2) None [] Map.empty)) ''out.csv'' = Some []"
  by code_simp

text \<open>
  C5, as amended. In validate mode, when the validation stage of a round fails as a whole
  (the pool of \<open>parmap.map\<close> breaks, or any exception leaves the \<open>try\<close>), nothing is
  written for the round, the run goes on with the next round, and the state after the
  round is the state after the call of the generation service: the file is unchanged and
  nothing is printed, logged or counted for the dropped round.
\<close>

theorem failed_validation_round_skipped:
  assumes "generation_mol_repr c \<noteq> ''smiles''"
    and "generator_generate w i req = Inr generations"
    and "smiles_batch_of generations = Inr smiles_batch"
    and "canon_block w i smiles_batch = Inl e"
  shows "round_body w c req i s = (None, emit (Generate req) s) \<and>
         rounds_loop w c req (i # rest) s = rounds_loop w c req rest (emit (Generate req) s) \<and>
         fs (snd (round_body w c req i s)) = fs s \<and>
         printed (trace (snd (round_body w c req i s))) = printed (trace s)"
proof -
  have rb: "round_body w c req i s = (None, emit (Generate req) s)"
    using assms by (simp add: round_body_def Let_def)
  then show ?thesis by simp
qed

theorem failed_validation_round_skipped_witness:
  "generation_mol_repr (demo_cfg ''selfies'' 4 2) \<noteq> ''smiles'' \<and>
   generator_generate (pair_world ''[C]'' ''[O]'' (\<lambda>i. i = 0)) 0 (request_object (demo_cfg ''selfies'' 4 2))
     = Inr [one ''[C]'', one ''[O]''] \<and>
   smiles_batch_of [one ''[C]'', one ''[O]''] = Inr [''[C]'', ''[O]''] \<and>
   canon_block (pair_world ''[C]'' ''[O]'' (\<lambda>i. i = 0)) 0 [''[C]'', ''[O]''] = Inl PoolError \<and>
   rounds_loop (pair_world ''[C]'' ''[O]'' (\<lambda>i. i = 0)) (demo_cfg ''selfies'' 4 2) (request_object (demo_cfg ''selfies'' 4 2))
       [0, 1] \<lparr>fs = Map.empty(''out.csv'' \<mapsto> []), trace = []\<rparr> =
     rounds_loop (pair_world ''[C]'' ''[O]'' (\<lambda>i. i = 0)) (demo_cfg ''selfies'' 4 2) (request_object (demo_cfg ''selfies'' 4 2))
       [1] (emit (Generate (request_object (demo_cfg ''selfies'' 4 2))) \<lparr>fs = Map.empty(''out.csv'' \<mapsto> []), trace = []\<rparr>) \<and>
   fs (snd (worker_main (pair_world ''[C]'' ''[O]'' (\<lambda>i. i = 0)) (demo_cfg ''selfies'' 4 2) None [] Map.empty)) ''out.csv''
     = Some (''[C]'' @ [nl] @ ''[O]'' @ [nl])"
proof -
  let ?w = "pair_world ''[C]'' ''[O]'' (\<lambda>i. i = 0)"
  let ?c = "demo_cfg ''selfies'' 4 2"
  have h1: "generation_mol_repr ?c \<noteq> ''smiles''" by (simp add: demo_cfg_def)
  have h2: "generator_generate ?w 0 (request_object ?c) = Inr [one ''[C]'', one ''[O]'']"
    by (simp add: pair_world_def demo_world_def)
  have h3: "smiles_batch_of [one ''[C]'', one ''[O]''] = Inr [''[C]'', ''[O]'']"
    by (simp add: smiles_batch_of_def first_text_def one_def)
  have h4: "canon_block ?w 0 [''[C]'', ''[O]''] = Inl PoolError"
    by (simp add: parmap_fails_canon_block pair_world_def demo_world_def)
  have run: "fs (snd (worker_main ?w ?c None [] Map.empty)) ''out.csv'' = Some (''[C]'' @ [nl] @ ''[O]'' @ [nl])"
    by code_simp
  from failed_validation_round_skipped [OF h1 h2 h3 h4, of "\<lparr>fs = Map.empty(''out.csv'' \<mapsto> []), trace = []\<rparr>" "[1]"]
    h1 h2 h3 h4 run
  show ?thesis by blast
qed

text \<open>
  The statement of C5 itself fails in its last part. The two runs below differ only in that
  the pool breaks in the one round of the first: that run ends with exit code 0 like the
  second, its file is empty, and it prints exactly what the second prints. The dropped
  round leaves no record.
\<close>

theorem dropped_round_not_reported_counterexample:
  "parmap_fails (pair_world ''[C]'' ''[O]'' (\<lambda>i. True)) 0 \<and>
   fst (worker_main (pair_world ''[C]'' ''[O]'' (\<lambda>i. True)) (demo_cfg ''selfies'' 2 2) None [] Map.empty) = Exit 0 \<and>
   fs (snd (worker_main (pair_world ''[C]'' ''[O]'' (\<lambda>i. True)) (demo_cfg ''selfies'' 2 2) None [] Map.empty)) ''out.csv'' = Some [] \<and>
   fs (snd (worker_main (pair_world ''[C]'' ''[O]'' (\<lambda>i. False)) (demo_cfg ''selfies'' 2 2) None [] Map.empty)) ''out.csv''
     = Some (''[C]'' @ [nl] @ ''[O]'' @ [nl]) \<and>
   fst (worker_main (pair_world ''[C]'' ''[O]'' (\<lambda>i. True)) (demo_cfg ''selfies'' 2 2) None [] Map.empty) =
     fst (worker_main (pair_world ''[C]'' ''[O]'' (\<lambda>i. False)) (demo_cfg ''selfies'' 2 2) None [] Map.empty) \<and>
   printed (trace (snd (worker_main (pair_world ''[C]'' ''[O]'' (\<lambda>i. True)) (demo_cfg ''selfies'' 2 2) None [] Map.empty))) =
     printed (trace (snd (worker_main (pair_world ''[C]'' ''[O]'' (\<lambda>i. False)) (demo_cfg ''selfies'' 2 2) None [] Map.empty))) \<and>
   trace (snd (worker_main (pair_world ''[C]'' ''[O]'' (\<lambda>i. True)) (demo_cfg ''selfies'' 2 2) None [] Map.empty)) =
     [LoadModel, PathExists ''out.csv'', OpenFile ''out.csv'',
      PrintRequest (request_object (demo_cfg ''selfies'' 2 2)),
      Generate (request_object (demo_cfg ''selfies'' 2 2)), Print ''Saved in out.csv.'']"
  by code_simp

text \<open>
  C6. In pass-through mode (\<open>mol_repr\<close> is \<open>smiles\<close>) a round appends to the output
  file the texts the generation service returned for the round, unchanged, in the order of
  the prompts, joined by newlines and ended by a newline; the texts are the first
  candidates of the prompts; and when no text contains a newline, the lines of the
  appended block are exactly these texts.
\<close>

theorem pass_through_round_verbatim:
  assumes "generation_mol_repr c = ''smiles''"
    and "generator_generate w i req = Inr generations"
    and "smiles_batch_of generations = Inr texts"
    and "fs s (generation_output_file_path c) = Some old"
  shows "round_body w c req i s =
           (None, write_func (generation_output_file_path c) (join [nl] texts @ [nl]) (emit (Generate req) s)) \<and>
         fs (snd (round_body w c req i s)) (generation_output_file_path c) = Some (old @ join [nl] texts @ [nl]) \<and>
         texts = map (\<lambda>x. cand_text (hd x)) generations \<and>
         (texts \<noteq> [] \<and> (\<forall>t\<in>set texts. nl \<notin> set t) \<longrightarrow> split_lines (join [nl] texts @ [nl]) = texts)"
proof -
  have rb: "round_body w c req i s =
      (None, write_func (generation_output_file_path c) (join [nl] texts @ [nl]) (emit (Generate req) s))"
    using assms(1-3) by (simp add: round_body_def Let_def)
  have written: "fs (snd (round_body w c req i s)) (generation_output_file_path c) = Some (old @ join [nl] texts @ [nl])"
    using assms(4) by (simp add: rb)
  have texts: "texts = map (\<lambda>x. cand_text (hd x)) generations"
    using assms(3) by (rule smiles_batch_of_Inr)
  have lines: "texts \<noteq> [] \<and> (\<forall>t\<in>set texts. nl \<notin> set t) \<longrightarrow> split_lines (join [nl] texts @ [nl]) = texts"
    by (simp add: split_lines_def split_lines_join)
  from rb written texts lines show ?thesis by blast
qed

theorem pass_through_round_verbatim_witness:
  "generation_mol_repr (demo_cfg ''smiles'' 10 4) = ''smiles'' \<and>
   generator_generate abcd_world 1 (request_object (demo_cfg ''smiles'' 10 4)) =
     Inr [one ''A'', one ''B'', one ''C'', one ''D''] \<and>
   smiles_batch_of [one ''A'', one ''B'', one ''C'', one ''D''] = Inr [''A'', ''B'', ''C'', ''D''] \<and>
   fs (snd (round_body abcd_world (demo_cfg ''smiles'' 10 4) (request_object (demo_cfg ''smiles'' 10 4)) 1
              \<lparr>fs = Map.empty(''out.csv'' \<mapsto> ''Z'' @ [nl]), trace = []\<rparr>)) ''out.csv'' =
     Some (''Z'' @ [nl] @ ''A'' @ [nl] @ ''B'' @ [nl] @ ''C'' @ [nl] @ ''D'' @ [nl]) \<and>
   split_lines (join [nl] [''A'', ''B'', ''C'', ''D''] @ [nl]) = [''A'', ''B'', ''C'', ''D'']"
proof -
  let ?c = "demo_cfg ''smiles'' 10 4"
  let ?s = "\<lparr>fs = Map.empty(''out.csv'' \<mapsto> ''Z'' @ [nl]), trace = []\<rparr>"
  have h1: "generation_mol_repr ?c = ''smiles''" by (simp add: demo_cfg_def)
  have h2: "generator_generate abcd_world 1 (request_object ?c) = Inr [one ''A'', one ''B'', one ''C'', one ''D'']"
    by (simp add: abcd_world_def demo_world_def)
  have h3: "smiles_batch_of [one ''A'', one ''B'', one ''C'', one ''D''] = Inr [''A'', ''B'', ''C'', ''D'']"
    by (simp add: smiles_batch_of_def first_text_def one_def)
  have h4: "fs ?s (generation_output_file_path ?c) = Some (''Z'' @ [nl])" by (simp add: demo_cfg_def)
  have p: "generation_output_file_path ?c = ''out.csv''" by (simp add: demo_cfg_def)
  have nonl: "[''A'', ''B'', ''C'', ''D''] \<noteq> [] \<and> (\<forall>t\<in>set [''A'', ''B'', ''C'', ''D'']. nl \<notin> set t)"
    by (simp add: nl_def)
  from pass_through_round_verbatim [OF h1 h2 h3 h4] h1 h2 h3 nonl show ?thesis
    by (simp add: p)
qed

text \<open>
  C8. In every run of the process that owns the output, every request handed to the
  generation service is the one \<open>request_object\<close> built before the loop: for a batch size
  that is not negative it has \<open>batch_size\<close> prompts, all empty, as many \<open>min_tokens\<close>
  as prompts, and the configured seed, the same in every round.
\<close>

theorem request_invariant:
  assumes "0 \<le> dataset_batch_size c" and "rank = None \<or> rank = Some 0"
  shows "\<forall>ev \<in> set (trace (snd (worker_main w c rank delivered files))). \<forall>r. ev = Generate r \<longrightarrow>
           r = request_object c \<and>
           int (length (inputs r)) = dataset_batch_size c \<and>
           (\<forall>prompt \<in> set (inputs r). prompt = []) \<and>
           length (min_tokens r) = length (inputs r) \<and>
           seed r = common_seed c"
proof -
  define s where "s = (if rank = None then emit LoadModel \<lparr>fs = files, trace = []\<rparr>
                       else emit (Publish None) (emit LoadModel \<lparr>fs = files, trace = []\<rparr>))"
  have R: "worker_main w c rank delivered files = coordinating w c s"
    using assms(2) by (auto simp: worker_main_def Let_def s_def)
  have pre: "\<forall>ev\<in>set (trace s). \<forall>r. ev \<noteq> Generate r" by (simp add: s_def)
  from coordinating_events [of w c s] obtain evs where
    evs: "trace (snd (coordinating w c s)) = trace s @ PathExists (generation_output_file_path c) # evs"
      "\<forall>ev\<in>set evs. ev = OpenFile (generation_output_file_path c) \<or> ev = PrintRequest (request_object c) \<or>
            ev = Generate (request_object c) \<or> (\<exists>t. ev = FileWrite t) \<or> (\<exists>m. ev = Print m)"
    by auto
  have only: "\<forall>ev \<in> set (trace (snd (worker_main w c rank delivered files))). \<forall>r. ev = Generate r \<longrightarrow> r = request_object c"
    using pre evs by (auto simp: R)
  have ro: "int (length (inputs (request_object c))) = dataset_batch_size c \<and>
           (\<forall>prompt \<in> set (inputs (request_object c)). prompt = []) \<and>
           length (min_tokens (request_object c)) = length (inputs (request_object c)) \<and>
           seed (request_object c) = common_seed c"
    using assms(1) by (simp add: request_object_def)
  show ?thesis
  proof (intro ballI allI impI)
    fix ev r
    assume "ev \<in> set (trace (snd (worker_main w c rank delivered files)))" and "ev = Generate r"
    with only have "r = request_object c" by simp
    with ro show "r = request_object c \<and>
           int (length (inputs r)) = dataset_batch_size c \<and>
           (\<forall>prompt \<in> set (inputs r). prompt = []) \<and>
           length (min_tokens r) = length (inputs r) \<and>
           seed r = common_seed c" by simp
  qed
qed

theorem request_invariant_witness:
  "0 \<le> dataset_batch_size (demo_cfg ''smiles'' 10 4) \<and>
   Generate (request_object (demo_cfg ''smiles'' 10 4))
     \<in> set (trace (snd (worker_main abcd_world (demo_cfg ''smiles'' 10 4) None [] Map.empty))) \<and>
   count_list (trace (snd (worker_main abcd_world (demo_cfg ''smiles'' 10 4) None [] Map.empty)))
     (Generate (request_object (demo_cfg ''smiles'' 10 4))) = 3 \<and>
   int (length (inputs (request_object (demo_cfg ''smiles'' 10 4)))) = dataset_batch_size (demo_cfg ''smiles'' 10 4) \<and>
   inputs (request_object (demo_cfg ''smiles'' 10 4)) = [[], [], [], []] \<and>
   min_tokens (request_object (demo_cfg ''smiles'' 10 4)) = [1, 1, 1, 1] \<and>
   seed (request_object (demo_cfg ''smiles'' 10 4)) = 3"
proof -
  let ?c = "demo_cfg ''smiles'' 10 4"
  let ?tr = "trace (snd (worker_main abcd_world ?c None [] Map.empty))"
  have h1: "0 \<le> dataset_batch_size ?c" by (simp add: demo_cfg_def)
  have mem: "Generate (request_object ?c) \<in> set ?tr" by code_simp
  have cnt: "count_list ?tr (Generate (request_object ?c)) = 3" by code_simp
  have vals: "inputs (request_object ?c) = [[], [], [], []]" "min_tokens (request_object ?c) = [1, 1, 1, 1]"
    "seed (request_object ?c) = 3"
    by (simp_all add: request_object_def demo_cfg_def eval_nat_numeral)
  have role: "(None :: nat option) = None \<or> (None :: nat option) = Some 0" by simp
  note inv = request_invariant [OF h1 role, of abcd_world "[]" Map.empty]
  from inv mem have "\<forall>r. Generate (request_object ?c) = Generate r \<longrightarrow>
           r = request_object ?c \<and>
           int (length (inputs r)) = dataset_batch_size ?c \<and>
           (\<forall>prompt \<in> set (inputs r). prompt = []) \<and>
           length (min_tokens r) = length (inputs r) \<and>
           seed r = common_seed ?c" by (rule bspec)
  then have "Generate (request_object ?c) = Generate (request_object ?c) \<longrightarrow>
           request_object ?c = request_object ?c \<and>
           int (length (inputs (request_object ?c))) = dataset_batch_size ?c \<and>
           (\<forall>prompt \<in> set (inputs (request_object ?c)). prompt = []) \<and>
           length (min_tokens (request_object ?c)) = length (inputs (request_object ?c)) \<and>
           seed (request_object ?c) = common_seed ?c" by (rule spec)
  then have len: "int (length (inputs (request_object ?c))) = dataset_batch_size ?c" by blast
  show ?thesis
    by (intro conjI) (rule h1 mem cnt len vals)+
qed

text \<open>
  C10. One text is taken per prompt, that of its first candidate: the batch read from a
  result has one entry per prompt (when every prompt has a candidate), and both the batch
  and the whole round stay the same when every candidate after the first is removed from
  the result of the generation service.
\<close>

theorem first_candidate_only:
  "smiles_batch_of generations = smiles_batch_of (map (take 1) generations) \<and>
   (smiles_batch_of generations = Inr texts \<longrightarrow>
      length texts = length generations \<and> texts = map (\<lambda>x. cand_text (hd x)) generations) \<and>
   (generator_generate w i req = Inr generations \<longrightarrow>
      round_body w c req i s =
        round_body (w\<lparr>generator_generate := \<lambda>j r. Inr (map (take 1) generations)\<rparr>) c req i s)"
proof -
  have a: "smiles_batch_of generations = smiles_batch_of (map (take 1) generations)"
    by (simp only: smiles_batch_of_take)
  have b: "length texts = length generations \<and> texts = map (\<lambda>x. cand_text (hd x)) generations"
    if "smiles_batch_of generations = Inr texts"
    using smiles_batch_of_Inr(1) [OF that] by simp
  have c: "round_body w c req i s =
        round_body (w\<lparr>generator_generate := \<lambda>j r. Inr (map (take 1) generations)\<rparr>) c req i s"
    if "generator_generate w i req = Inr generations"
    using that
    by (simp add: round_body_def Let_def canon_block_generate_update smiles_batch_of_take [unfolded One_nat_def]
        split: sum.splits)
  from a b c show ?thesis by blast
qed

theorem first_candidate_only_witness:
  "smiles_batch_of [[\<lparr>cand_text = ''A''\<rparr>, \<lparr>cand_text = ''X''\<rparr>], [\<lparr>cand_text = ''B''\<rparr>, \<lparr>cand_text = ''Y''\<rparr>, \<lparr>cand_text = ''Z''\<rparr>]]
     = Inr [''A'', ''B''] \<and>
   generator_generate (demo_world (\<lambda>i req. Inr [[\<lparr>cand_text = ''A''\<rparr>, \<lparr>cand_text = ''X''\<rparr>], [\<lparr>cand_text = ''B''\<rparr>, \<lparr>cand_text = ''Y''\<rparr>, \<lparr>cand_text = ''Z''\<rparr>]]) (\<lambda>i. False))
      0 (request_object (demo_cfg ''smiles'' 2 2))
     = Inr [[\<lparr>cand_text = ''A''\<rparr>, \<lparr>cand_text = ''X''\<rparr>], [\<lparr>cand_text = ''B''\<rparr>, \<lparr>cand_text = ''Y''\<rparr>, \<lparr>cand_text = ''Z''\<rparr>]] \<and>
   round_body (demo_world (\<lambda>i req. Inr [[\<lparr>cand_text = ''A''\<rparr>, \<lparr>cand_text = ''X''\<rparr>], [\<lparr>cand_text = ''B''\<rparr>, \<lparr>cand_text = ''Y''\<rparr>, \<lparr>cand_text = ''Z''\<rparr>]]) (\<lambda>i. False))
      (demo_cfg ''smiles'' 2 2) (request_object (demo_cfg ''smiles'' 2 2)) 0 \<lparr>fs = Map.empty(''out.csv'' \<mapsto> []), trace = []\<rparr> =
   round_body (demo_world (\<lambda>i req. Inr [[\<lparr>cand_text = ''A''\<rparr>, \<lparr>cand_text = ''X''\<rparr>], [\<lparr>cand_text = ''B''\<rparr>, \<lparr>cand_text = ''Y''\<rparr>, \<lparr>cand_text = ''Z''\<rparr>]]) (\<lambda>i. False)
                \<lparr>generator_generate := \<lambda>j r. Inr (map (take 1) [[\<lparr>cand_text = ''A''\<rparr>, \<lparr>cand_text = ''X''\<rparr>], [\<lparr>cand_text = ''B''\<rparr>, \<lparr>cand_text = ''Y''\<rparr>, \<lparr>cand_text = ''Z''\<rparr>]])\<rparr>)
      (demo_cfg ''smiles'' 2 2) (request_object (demo_cfg ''smiles'' 2 2)) 0 \<lparr>fs = Map.empty(''out.csv'' \<mapsto> []), trace = []\<rparr> \<and>
   fs (snd (worker_main (demo_world (\<lambda>i req. Inr [[\<lparr>cand_text = ''A''\<rparr>, \<lparr>cand_text = ''X''\<rparr>], [\<lparr>cand_text = ''B''\<rparr>, \<lparr>cand_text = ''Y''\<rparr>, \<lparr>cand_text = ''Z''\<rparr>]]) (\<lambda>i. False))
      (demo_cfg ''smiles'' 2 2) None [] Map.empty)) ''out.csv'' = Some (''A'' @ [nl] @ ''B'' @ [nl])"
proof -
  let ?g = "[[\<lparr>cand_text = ''A''\<rparr>, \<lparr>cand_text = ''X''\<rparr>], [\<lparr>cand_text = ''B''\<rparr>, \<lparr>cand_text = ''Y''\<rparr>, \<lparr>cand_text = ''Z''\<rparr>]]"
  let ?w = "demo_world (\<lambda>i req. Inr ?g) (\<lambda>i. False)"
  let ?c = "demo_cfg ''smiles'' 2 2"
  have h1: "smiles_batch_of ?g = Inr [''A'', ''B'']"
    by (simp add: smiles_batch_of_def first_text_def)
  have h2: "generator_generate ?w 0 (request_object ?c) = Inr ?g"
    by (simp add: demo_world_def)
  have run: "fs (snd (worker_main ?w ?c None [] Map.empty)) ''out.csv'' = Some (''A'' @ [nl] @ ''B'' @ [nl])"
    by code_simp
  from first_candidate_only [of ?g "[''A'', ''B'']" ?w 0 "request_object ?c" ?c "\<lparr>fs = Map.empty(''out.csv'' \<mapsto> []), trace = []\<rparr>"]
    h1 h2 run
  show ?thesis by blast
qed

text \<open>
  C1, as amended. For \<open>0 < generation_len < 2 ^ 53\<close> and \<open>0 < batch_size < 2 ^ 53\<close>, in a
  run of the process that owns the output that starts without the output file and in which
  the generation service answers every round, the loop makes exactly
  \<open>ceil(generation_len / batch_size)\<close> calls of the generation service, each with the
  request of \<open>batch_size\<close> prompts, and the run ends with exit code 0. When moreover every
  round goes through in full (the service returns \<open>batch_size\<close> answers; in pass-through
  mode no text holds a newline; in validate mode the pool works and every text decodes and
  canonicalises), the file then holds \<open>ceil(generation_len / batch_size) * batch_size\<close>
  lines: \<open>generation_len\<close> rounded up to a multiple of \<open>batch_size\<close>, the last round
  being a full batch.
\<close>

theorem rounds_and_lines:
  assumes gl: "0 < generation_generation_len c" "generation_generation_len c < 2 ^ 53"
    and bs: "0 < dataset_batch_size c" "dataset_batch_size c < 2 ^ 53"
    and role: "rank = None \<or> rank = Some 0"
    and fresh: "files (generation_output_file_path c) = None"
    and served: "\<forall>i < nat (exact_ceil (generation_generation_len c) (dataset_batch_size c)). served_round w c i"
  shows "fst (worker_main w c rank delivered files) = Exit 0 \<and>
         round_count (generation_generation_len c) (dataset_batch_size c) =
           Inr (exact_ceil (generation_generation_len c) (dataset_batch_size c)) \<and>
         generate_calls (trace (snd (worker_main w c rank delivered files))) =
           replicate (nat (exact_ceil (generation_generation_len c) (dataset_batch_size c))) (request_object c) \<and>
         int (length (inputs (request_object c))) = dataset_batch_size c \<and>
         ((\<forall>i < nat (exact_ceil (generation_generation_len c) (dataset_batch_size c)). clean_round w c i) \<longrightarrow>
            (\<exists>content. fs (snd (worker_main w c rank delivered files)) (generation_output_file_path c) = Some content \<and>
               int (count_lines content) =
                 exact_ceil (generation_generation_len c) (dataset_batch_size c) * dataset_batch_size c)) \<and>
         generation_generation_len c \<le>
           exact_ceil (generation_generation_len c) (dataset_batch_size c) * dataset_batch_size c \<and>
         exact_ceil (generation_generation_len c) (dataset_batch_size c) * dataset_batch_size c <
           generation_generation_len c + dataset_batch_size c"
proof -
  let ?p = "generation_output_file_path c"
  let ?k = "exact_ceil (generation_generation_len c) (dataset_batch_size c)"
  define s where "s = (if rank = None then emit LoadModel \<lparr>fs = files, trace = []\<rparr>
                       else emit (Publish None) (emit LoadModel \<lparr>fs = files, trace = []\<rparr>))"
  let ?s3 = "emit (PrintRequest (request_object c)) (open_wt ?p (emit (PathExists ?p) s))"
  have R: "worker_main w c rank delivered files = coordinating w c s"
    using role by (auto simp: worker_main_def Let_def s_def)
  have fs_s: "fs s ?p = None" using fresh by (simp add: s_def)
  have gc_s: "generate_calls (trace s) = []" by (simp add: s_def)
  have rc: "round_count (generation_generation_len c) (dataset_batch_size c) = Inr ?k"
    using round_count_exact [OF gl bs] exact_ceil_div [OF bs(1), of "generation_generation_len c"]
    by simp
  have k0: "0 \<le> ?k"
    using gl(1) bs(1)
    by (simp add: exact_ceil_div [OF bs(1)] pos_imp_zdiv_nonneg_iff)
  note co = coordinating_served [OF fs_s rc served]
  have c1: "fst (worker_main w c rank delivered files) = Exit 0" by (simp add: R co(1))
  have c3: "generate_calls (trace (snd (worker_main w c rank delivered files))) =
              replicate (nat ?k) (request_object c)"
    by (simp add: R co(2) gc_s)
  have c4: "int (length (inputs (request_object c))) = dataset_batch_size c"
    using bs(1) by (simp add: request_object_def)
  have c5: "(\<forall>i < nat ?k. clean_round w c i) \<longrightarrow>
            (\<exists>content. fs (snd (worker_main w c rank delivered files)) ?p = Some content \<and>
               int (count_lines content) = ?k * dataset_batch_size c)"
  proof
    assume clean: "\<forall>i < nat ?k. clean_round w c i"
    then have cl: "\<forall>i\<in>set [0..<nat ?k]. clean_round w c i" by simp
    have f3: "fs ?s3 ?p = Some []" by simp
    from clean_rounds_loop [OF cl bs(1) f3] obtain new where
      new: "fs (snd (rounds_loop w c (request_object c) [0..<nat ?k] ?s3)) ?p = Some new"
        "count_lines new = count_lines [] + length [0..<nat ?k] * nat (dataset_batch_size c)"
      by blast
    have "fs (snd (worker_main w c rank delivered files)) ?p = Some new"
      by (simp add: R co(3) new(1))
    moreover have "int (count_lines new) = ?k * dataset_batch_size c"
      using new(2) k0 bs(1) by simp
    ultimately show "\<exists>content. fs (snd (worker_main w c rank delivered files)) ?p = Some content \<and>
               int (count_lines content) = ?k * dataset_batch_size c" by blast
  qed
  note bnd = exact_ceil_bounds [OF bs(1), of "generation_generation_len c"]
  show ?thesis
    by (intro conjI) (rule c1 rc c3 c4 c5 bnd)+
qed

theorem rounds_and_lines_witness:
  "0 < generation_generation_len (demo_cfg ''smiles'' 10 4) \<and>
   generation_generation_len (demo_cfg ''smiles'' 10 4) < 2 ^ 53 \<and>
   0 < dataset_batch_size (demo_cfg ''smiles'' 10 4) \<and>
   dataset_batch_size (demo_cfg ''smiles'' 10 4) < 2 ^ 53 \<and>
   (Map.empty :: string \<Rightarrow> string option) (generation_output_file_path (demo_cfg ''smiles'' 10 4)) = None \<and>
   exact_ceil (generation_generation_len (demo_cfg ''smiles'' 10 4)) (dataset_batch_size (demo_cfg ''smiles'' 10 4)) = 3 \<and>
   served_round abcd_world (demo_cfg ''smiles'' 10 4) 0 \<and>
   served_round abcd_world (demo_cfg ''smiles'' 10 4) 1 \<and>
   served_round abcd_world (demo_cfg ''smiles'' 10 4) 2 \<and>
   clean_round abcd_world (demo_cfg ''smiles'' 10 4) 0 \<and>
   clean_round abcd_world (demo_cfg ''smiles'' 10 4) 1 \<and>
   clean_round abcd_world (demo_cfg ''smiles'' 10 4) 2 \<and>
   fst (worker_main abcd_world (demo_cfg ''smiles'' 10 4) None [] Map.empty) = Exit 0 \<and>
   round_count (generation_generation_len (demo_cfg ''smiles'' 10 4)) (dataset_batch_size (demo_cfg ''smiles'' 10 4)) = Inr 3 \<and>
   generate_calls (trace (snd (worker_main abcd_world (demo_cfg ''smiles'' 10 4) None [] Map.empty))) =
     replicate 3 (request_object (demo_cfg ''smiles'' 10 4)) \<and>
   int (length (inputs (request_object (demo_cfg ''smiles'' 10 4)))) = 4 \<and>
   map_option count_lines
     (fs (snd (worker_main abcd_world (demo_cfg ''smiles'' 10 4) None [] Map.empty)) ''out.csv'') = Some 12"
proof -
  let ?c = "demo_cfg ''smiles'' 10 4"
  let ?R = "worker_main abcd_world ?c None [] Map.empty"
  let ?k = "exact_ceil (generation_generation_len ?c) (dataset_batch_size ?c)"
  have h1: "0 < generation_generation_len ?c" by (simp add: demo_cfg_def)
  have h2: "generation_generation_len ?c < 2 ^ 53" by (simp add: demo_cfg_def)
  have h3: "0 < dataset_batch_size ?c" by (simp add: demo_cfg_def)
  have h4: "dataset_batch_size ?c < 2 ^ 53" by (simp add: demo_cfg_def)
  have role: "(None :: nat option) = None \<or> (None :: nat option) = Some 0" by simp
  have pth: "generation_output_file_path ?c = ''out.csv''" by (simp add: demo_cfg_def)
  have bsv: "dataset_batch_size ?c = 4" by (simp add: demo_cfg_def)
  have fresh: "(Map.empty :: string \<Rightarrow> string option) (generation_output_file_path ?c) = None" by simp
  have ec: "?k = 3" by (simp add: exact_ceil_div demo_cfg_def)
  have sv: "served_round abcd_world ?c i" for i
    by (simp add: served_round_def abcd_world_def demo_world_def smiles_batch_of_def first_text_def one_def)
  have cl: "clean_round abcd_world ?c i" for i
    by (simp add: clean_round_def abcd_world_def demo_world_def smiles_batch_of_def first_text_def
        one_def demo_cfg_def nl_def)
  have served: "\<forall>i < nat ?k. served_round abcd_world ?c i" by (intro allI impI) (rule sv)
  have clean: "\<forall>i < nat ?k. clean_round abcd_world ?c i" by (intro allI impI) (rule cl)
  note T = rounds_and_lines [OF h1 h2 h3 h4 role fresh served, of "[]"]
  note T1 = T [THEN conjunct1]
  note T2 = T [THEN conjunct2, THEN conjunct1]
  note T3 = T [THEN conjunct2, THEN conjunct2, THEN conjunct1]
  note T4 = T [THEN conjunct2, THEN conjunct2, THEN conjunct2, THEN conjunct1]
  note T5 = T [THEN conjunct2, THEN conjunct2, THEN conjunct2, THEN conjunct2, THEN conjunct1]
  from T5 clean obtain content where
    content: "fs (snd ?R) (generation_output_file_path ?c) = Some content"
      "int (count_lines content) = ?k * dataset_batch_size ?c"
    by (elim impE exE conjE)
  have n: "count_lines content = 12" using content(2) [unfolded ec, unfolded bsv] by simp
  have c5: "map_option count_lines (fs (snd ?R) ''out.csv'') = Some 12"
    using content(1) n by (simp only: pth option.map)
  have c2: "round_count (generation_generation_len ?c) (dataset_batch_size ?c) = Inr 3"
    using T2 by (simp only: ec)
  have c3: "generate_calls (trace (snd ?R)) = replicate 3 (request_object ?c)"
    using T3 by (simp only: ec) simp
  have c4: "int (length (inputs (request_object ?c))) = 4"
    using T4 by (simp only: bsv)
  show ?thesis
    by (intro conjI) (rule h1 h2 h3 h4 fresh ec sv cl T1 c2 c3 c4 c5)+
qed

text \<open>
  The statement of C1 itself fails on two inputs. In validate mode a round whose validation
  fails writes nothing and the run still completes normally: below the pool breaks in the
  first of two rounds, both calls of the service are made, the run ends with exit code 0,
  and the file holds 2 lines where \<open>generation_len\<close> rounded up is 4. And the number of
  rounds is the ceiling of a double: for \<open>generation_len = 2 ^ 53 + 1\<close> and
  \<open>batch_size = 1\<close> the quotient rounds to \<open>2 ^ 53\<close>, one round less than the ceiling of
  the exact quotient.
\<close>

theorem skipped_round_fewer_lines_counterexample:
  "fst (worker_main (pair_world ''[C]'' ''[O]'' (\<lambda>i. i = 0)) (demo_cfg ''selfies'' 4 2) None [] Map.empty) = Exit 0 \<and>
   generate_calls (trace (snd (worker_main (pair_world ''[C]'' ''[O]'' (\<lambda>i. i = 0)) (demo_cfg ''selfies'' 4 2) None [] Map.empty))) =
     [request_object (demo_cfg ''selfies'' 4 2), request_object (demo_cfg ''selfies'' 4 2)] \<and>
   fs (snd (worker_main (pair_world ''[C]'' ''[O]'' (\<lambda>i. i = 0)) (demo_cfg ''selfies'' 4 2) None [] Map.empty)) ''out.csv''
     = Some (''[C]'' @ [nl] @ ''[O]'' @ [nl]) \<and>
   map_option count_lines
     (fs (snd (worker_main (pair_world ''[C]'' ''[O]'' (\<lambda>i. i = 0)) (demo_cfg ''selfies'' 4 2) None [] Map.empty)) ''out.csv'')
     = Some 2 \<and>
   exact_ceil 4 2 * 2 = 4 \<and>
   round_count (2 ^ 53 + 1) 1 = Inr (2 ^ 53) \<and>
   exact_ceil (2 ^ 53 + 1) 1 = 2 ^ 53 + 1"
  by code_simp

end
